theory Spec2Isabelle
  imports Main "HOL-Library.Word"
begin

section \<open>Errors and their causes\<close>

text \<open>
  The error values that reach \<^verbatim>\<open>lightning/common/util.go\<close>: the sentinel
  \<^verbatim>\<open>driver.ErrBadConn\<close>, a value implementing \<^verbatim>\<open>net.Error\<close> (with the result of its
  \<^verbatim>\<open>Timeout()\<close> method), a \<^verbatim>\<open>*mysql.MySQLError\<close> (its \<^verbatim>\<open>Number\<close>, a \<^verbatim>\<open>uint16\<close>, and its
  \<^verbatim>\<open>Message\<close>), any other plain error, and the two kinds of \<^verbatim>\<open>juju/errors\<close> values the file
  builds itself: \<^verbatim>\<open>errors.Trace(e)\<close> and \<^verbatim>\<open>errors.Errorf(format, args...)\<close>.
  Format arguments are kept as they are passed, not rendered.
\<close>

datatype err =
    ErrBadConn
  | NetError bool
  | MySQLError "16 word" string
  | OtherError string
  | Traced err
  | Errorf string "arg list"
and arg =
    AString string
  | AStrings "string list"
  | AInt int
  | AError err
  | AErrorText err
  | AErrorStack err

text \<open>
  \<^verbatim>\<open>errors.Cause\<close>: a traced error stores the cause of the error it wraps; an error made by
  \<^verbatim>\<open>errors.Errorf\<close> has no stored cause, and every other error has no \<^verbatim>\<open>Cause\<close> method, so
  each of them is its own cause.
\<close>

fun Cause :: "err \<Rightarrow> err" where
  "Cause (Traced e) = Cause e"
| "Cause e = e"

text \<open>
  The error codes of the package imported as \<^verbatim>\<open>tmysql\<close> that the classifier's switch
  names. The package is not part of the sources, so its table is a parameter.
\<close>

record tmysql =
  ErrUnknown :: "16 word"
  ErrLockDeadlock :: "16 word"
  ErrPDServerTimeout :: "16 word"
  ErrTiKVServerTimeout :: "16 word"
  ErrTiKVServerBusy :: "16 word"
  ErrResolveLockTimeout :: "16 word"
  ErrRegionUnavailable :: "16 word"

definition isRetryableError :: "tmysql \<Rightarrow> err \<Rightarrow> bool" where
  "isRetryableError tm err =
     (case Cause err of
        ErrBadConn \<Rightarrow> True
      | NetError timeout \<Rightarrow> timeout
      | MySQLError number message \<Rightarrow>
          (if number = ErrUnknown tm \<or> number = ErrLockDeadlock tm
              \<or> number = ErrPDServerTimeout tm \<or> number = ErrTiKVServerTimeout tm
              \<or> number = ErrTiKVServerBusy tm \<or> number = ErrResolveLockTimeout tm
              \<or> number = ErrRegionUnavailable tm
           then True else False)
      | _ \<Rightarrow> True)"

text \<open>The errors a value built by \<^verbatim>\<open>errors.Trace\<close> or \<^verbatim>\<open>errors.Errorf\<close> carries with it.\<close>

fun carried :: "err \<Rightarrow> err list"
and carried_arg :: "arg \<Rightarrow> err list" where
  "carried (Traced e) = [e]"
| "carried (Errorf fmt args) = concat (map carried_arg args)"
| "carried ErrBadConn = []"
| "carried (NetError t) = []"
| "carried (MySQLError n m) = []"
| "carried (OtherError s) = []"
| "carried_arg (AError e) = [e]"
| "carried_arg (AErrorText e) = [e]"
| "carried_arg (AErrorStack e) = [e]"
| "carried_arg (AString s) = []"
| "carried_arg (AStrings ss) = []"
| "carried_arg (AInt i) = []"

section \<open>The world outside the file\<close>

text \<open>
  Every call that leaves the file is recorded, in order, in a history. The database
  driver is a collaborator: whether a call fails, and with which error, is a function
  \<open>fails\<close> of the history up to and including that call; what \<^verbatim>\<open>Scan\<close> leaves in the
  destinations is a function \<open>scans\<close> of the history and their old contents. The context
  \<^verbatim>\<open>ctx\<close> is only handed on to the driver, so its effect is part of \<open>fails\<close>. A sleep is
  recorded with its duration in nanoseconds, the unit of \<^verbatim>\<open>time.Duration\<close>.
\<close>

datatype dbop =
    OpBeginTx
  | OpExec string
  | OpRollback
  | OpCommit
  | OpQueryRow string
  | OpSleep int

datatype level = Debug | Warn | Error

datatype logrec = Log level string "arg list"

record env =
  codes :: tmysql
  fails :: "dbop list \<Rightarrow> err option"
  scans :: "dbop list \<Rightarrow> string list \<Rightarrow> string list"

text \<open>
  The state: the history, the log, the statements executed in the open transaction
  (\<open>None\<close> when no transaction is open), the statements whose effects are visible, and the
  destinations of \<^verbatim>\<open>Scan\<close>. The database is transactional: a statement that succeeds joins
  the open transaction, a commit that succeeds makes the transaction's statements
  visible, and a rollback or a failed commit ends the transaction without making
  anything visible.
\<close>

record world =
  trace :: "dbop list"
  logs :: "logrec list"
  pending :: "string list option"
  committed :: "string list"
  dest :: "string list"

definition db_BeginTx :: "env \<Rightarrow> world \<Rightarrow> err option \<times> world" where
  "db_BeginTx env w =
     (let tr = trace w @ [OpBeginTx] in
      case fails env tr of
        Some e \<Rightarrow> (Some e, w\<lparr>trace := tr\<rparr>)
      | None \<Rightarrow> (None, w\<lparr>trace := tr, pending := Some []\<rparr>))"

definition txn_ExecContext :: "env \<Rightarrow> string \<Rightarrow> world \<Rightarrow> err option \<times> world" where
  "txn_ExecContext env s w =
     (let tr = trace w @ [OpExec s] in
      case fails env tr of
        Some e \<Rightarrow> (Some e, w\<lparr>trace := tr\<rparr>)
      | None \<Rightarrow> (None, w\<lparr>trace := tr, pending := map_option (\<lambda>ss. ss @ [s]) (pending w)\<rparr>))"

definition txn_Rollback :: "env \<Rightarrow> world \<Rightarrow> err option \<times> world" where
  "txn_Rollback env w =
     (let tr = trace w @ [OpRollback] in
      (fails env tr, w\<lparr>trace := tr, pending := None\<rparr>))"

definition txn_Commit :: "env \<Rightarrow> world \<Rightarrow> err option \<times> world" where
  "txn_Commit env w =
     (let tr = trace w @ [OpCommit] in
      case fails env tr of
        Some e \<Rightarrow> (Some e, w\<lparr>trace := tr, pending := None\<rparr>)
      | None \<Rightarrow>
          (None, w\<lparr>trace := tr, pending := None,
                   committed := committed w @ (case pending w of None \<Rightarrow> [] | Some ss \<Rightarrow> ss)\<rparr>))"

definition db_QueryRowScan :: "env \<Rightarrow> string \<Rightarrow> world \<Rightarrow> err option \<times> world" where
  "db_QueryRowScan env query w =
     (let tr = trace w @ [OpQueryRow query] in
      (fails env tr, w\<lparr>trace := tr, dest := scans env tr (dest w)\<rparr>))"

definition time_Sleep :: "int \<Rightarrow> world \<Rightarrow> world" where
  "time_Sleep d w = w\<lparr>trace := trace w @ [OpSleep d]\<rparr>"

definition AppLogger_Debugf :: "string \<Rightarrow> arg list \<Rightarrow> world \<Rightarrow> world" where
  "AppLogger_Debugf fmt args w = w\<lparr>logs := logs w @ [Log Debug fmt args]\<rparr>"

definition AppLogger_Warnf :: "string \<Rightarrow> arg list \<Rightarrow> world \<Rightarrow> world" where
  "AppLogger_Warnf fmt args w = w\<lparr>logs := logs w @ [Log Warn fmt args]\<rparr>"

definition AppLogger_Errorf :: "string \<Rightarrow> arg list \<Rightarrow> world \<Rightarrow> world" where
  "AppLogger_Errorf fmt args w = w\<lparr>logs := logs w @ [Log Error fmt args]\<rparr>"

section \<open>The retry policy\<close>

definition time_Second :: int where
  "time_Second = 1000000000"

definition retryTimeout :: int where
  "retryTimeout = 3 * time_Second"

definition defaultMaxRetry :: int where
  "defaultMaxRetry = 3"

section \<open>One attempt: a batch in one transaction\<close>

text \<open>
  The loop \<^verbatim>\<open>for i := range sqls\<close> of \<^verbatim>\<open>executeSQLImp\<close>, on the statements not yet
  executed. \<open>Some e\<close> is the value of the \<^verbatim>\<open>return\<close> inside the loop, \<open>None\<close> says that the
  loop ran to its end.
\<close>

fun executeSQLImp_stmts :: "env \<Rightarrow> string list \<Rightarrow> world \<Rightarrow> err option \<times> world" where
  "executeSQLImp_stmts env [] w = (None, w)"
| "executeSQLImp_stmts env (s # rest) w =
     (case txn_ExecContext env s (AppLogger_Debugf ''[exec][sql] %s'' [AString s] w) of
        (Some e, w1) \<Rightarrow>
          (let w2 = AppLogger_Warnf ''[exec][sql] %s [error]%v'' [AString s, AError e] w1 in
           case txn_Rollback env w2 of
             (Some rerr, w3) \<Rightarrow>
               (Some (Traced e),
                AppLogger_Errorf ''[exec][sql] %s [error] %v'' [AString s, AError rerr] w3)
           | (None, w3) \<Rightarrow> (Some (Traced e), w3))
      | (None, w1) \<Rightarrow> executeSQLImp_stmts env rest w1)"

definition executeSQLImp :: "env \<Rightarrow> string list \<Rightarrow> world \<Rightarrow> err option \<times> world" where
  "executeSQLImp env sqls w =
     (case db_BeginTx env w of
        (Some e, w1) \<Rightarrow>
          (Some (Traced e),
           AppLogger_Errorf ''exec sqls [%v] begin failed %v'' [AStrings sqls, AErrorStack e] w1)
      | (None, w1) \<Rightarrow>
          (case executeSQLImp_stmts env sqls w1 of
             (Some e, w2) \<Rightarrow> (Some e, w2)
           | (None, w2) \<Rightarrow>
               (case txn_Commit env w2 of
                  (Some e, w3) \<Rightarrow>
                    (Some (Traced e),
                     AppLogger_Errorf ''exec sqls [%v] commit failed %v''
                       [AStrings sqls, AErrorStack e] w3)
                | (None, w3) \<Rightarrow> (None, w3))))"

section \<open>Retrying\<close>

text \<open>
  What a call gives back: the returned \<^verbatim>\<open>error\<close> (\<open>None\<close> is \<^verbatim>\<open>nil\<close>), or a panic.
  \<^verbatim>\<open>ExecWithRetry\<close> calls \<^verbatim>\<open>err.Error()\<close> after its loop, which panics when \<^verbatim>\<open>err\<close> is
  still \<^verbatim>\<open>nil\<close>.
\<close>

datatype outcome = Return "err option" | Panic

text \<open>
  The head of an iteration of \<^verbatim>\<open>ExecWithRetry\<close>: nothing when \<^verbatim>\<open>i\<close> is 0, a warning and then
  a sleep of \<^verbatim>\<open>retryTimeout\<close> otherwise. The loop \<^verbatim>\<open>for i := 0; i < maxRetry; i++\<close> is the
  recursive function below, with the bound as a parameter; \<^verbatim>\<open>ExecWithRetry\<close> sets it to
  \<^verbatim>\<open>defaultMaxRetry\<close>. The loop variable \<^verbatim>\<open>err\<close> holds the error of the last attempt.
\<close>

definition ExecWithRetry_pause :: "string list \<Rightarrow> int \<Rightarrow> world \<Rightarrow> world" where
  "ExecWithRetry_pause sqls i w =
     (if i > 0
      then time_Sleep retryTimeout
             (AppLogger_Warnf ''sql stmt_exec retry %d: %v'' [AInt i, AStrings sqls] w)
      else w)"

function ExecWithRetry_loop ::
  "env \<Rightarrow> string list \<Rightarrow> int \<Rightarrow> int \<Rightarrow> err option \<Rightarrow> world \<Rightarrow> outcome \<times> world" where
  "ExecWithRetry_loop env sqls maxRetry i err w =
     (if i < maxRetry then
        (case executeSQLImp env sqls (ExecWithRetry_pause sqls i w) of
           (Some e, w1) \<Rightarrow>
             if isRetryableError (codes env) e
             then ExecWithRetry_loop env sqls maxRetry (i + 1) (Some e) w1
             else (Return (Some (Traced e)),
                   AppLogger_Errorf ''[exec][sql] %s [error] %v'' [AStrings sqls, AError e] w1)
         | (None, w1) \<Rightarrow> (Return None, w1))
      else
        (case err of
           None \<Rightarrow> (Panic, w)
         | Some e \<Rightarrow>
             (Return (Some (Errorf ''exec sqls [%v] failed, err:%s''
                              [AStrings sqls, AErrorText e])), w)))"
  by pat_completeness auto
termination
  by (relation "measure (\<lambda>(env, sqls, maxRetry, i, err, w). nat (maxRetry - i))") auto

declare ExecWithRetry_loop.simps [simp del]

definition ExecWithRetry :: "env \<Rightarrow> string list \<Rightarrow> world \<Rightarrow> outcome \<times> world" where
  "ExecWithRetry env sqls w =
     (if length sqls = 0 then (Return None, w)
      else ExecWithRetry_loop env sqls defaultMaxRetry 0 None w)"

text \<open>
  \<^verbatim>\<open>QueryRowWithRetry\<close>: the same loop around \<^verbatim>\<open>db.QueryRowContext(ctx, query).Scan(dest...)\<close>,
  with no transaction.
\<close>

definition QueryRowWithRetry_pause :: "string \<Rightarrow> int \<Rightarrow> world \<Rightarrow> world" where
  "QueryRowWithRetry_pause query i w =
     (if i > 0
      then time_Sleep retryTimeout
             (AppLogger_Warnf ''query %s retry %d'' [AString query, AInt i] w)
      else w)"

function QueryRowWithRetry_loop ::
  "env \<Rightarrow> string \<Rightarrow> int \<Rightarrow> int \<Rightarrow> world \<Rightarrow> err option \<times> world" where
  "QueryRowWithRetry_loop env query maxRetry i w =
     (if i < maxRetry then
        (case db_QueryRowScan env query (QueryRowWithRetry_pause query i w) of
           (Some e, w1) \<Rightarrow>
             if \<not> isRetryableError (codes env) e then (Some (Traced e), w1)
             else QueryRowWithRetry_loop env query maxRetry (i + 1)
                    (AppLogger_Warnf ''query %s [error] %v'' [AString query, AError e] w1)
         | (None, w1) \<Rightarrow> (None, w1))
      else (Some (Errorf ''query sql [%s] failed'' [AString query]), w))"
  by pat_completeness auto
termination
  by (relation "measure (\<lambda>(env, query, maxRetry, i, w). nat (maxRetry - i))") auto

declare QueryRowWithRetry_loop.simps [simp del]

definition QueryRowWithRetry :: "env \<Rightarrow> string \<Rightarrow> world \<Rightarrow> err option \<times> world" where
  "QueryRowWithRetry env query w = QueryRowWithRetry_loop env query defaultMaxRetry 0 w"

section \<open>Reading the history\<close>

text \<open>
  The number of transactions begun and the durations slept, read off a history; and the
  debug lines \<^verbatim>\<open>executeSQLImp\<close> writes for the statements it executes.
\<close>

definition begins :: "dbop list \<Rightarrow> nat" where
  "begins tr = length (filter (\<lambda>op. op = OpBeginTx) tr)"

definition sleeps :: "dbop list \<Rightarrow> int list" where
  "sleeps tr = concat (map (\<lambda>op. case op of OpSleep d \<Rightarrow> [d] | _ \<Rightarrow> []) tr)"

definition debug_logs :: "string list \<Rightarrow> logrec list" where
  "debug_logs ss = map (\<lambda>s. Log Debug ''[exec][sql] %s'' [AString s]) ss"

section \<open>A concrete code table\<close>

text \<open>
  The values the TiDB \<^verbatim>\<open>mysql\<close> package gives the seven codes; used as the concrete table
  wherever a property is evaluated on an example.
\<close>

definition tidb_codes :: tmysql where
  "tidb_codes = \<lparr>ErrUnknown = 1105, ErrLockDeadlock = 1213, ErrPDServerTimeout = 9001,
     ErrTiKVServerTimeout = 9002, ErrTiKVServerBusy = 9003, ErrResolveLockTimeout = 9004,
     ErrRegionUnavailable = 9005\<rparr>"

section \<open>Example inputs\<close>

text \<open>
  A state with an empty history and an empty database, an environment built from a
  failure function, a batch of two statements, and a driver on which every transaction
  begin and every query fails with a retryable error (a different one on each attempt).
\<close>

definition world0 :: world where
  "world0 = \<lparr>trace = [], logs = [], pending = None, committed = [], dest = []\<rparr>"

definition env_of :: "(dbop list \<Rightarrow> err option) \<Rightarrow> env" where
  "env_of f = \<lparr>codes = tidb_codes, fails = f, scans = (\<lambda>tr d. d)\<rparr>"

definition batch_two :: "string list" where
  "batch_two = [''INSERT INTO t VALUES (1)'', ''INSERT INTO t VALUES (2)'']"

definition always_transient :: env where
  "always_transient = env_of (\<lambda>tr.
     case last tr of
       OpBeginTx \<Rightarrow>
         Some (if length tr = 1 then ErrBadConn
               else if length tr = 3 then NetError True
               else MySQLError 1213 ''deadlock'')
     | OpQueryRow q \<Rightarrow> Some (NetError True)
     | _ \<Rightarrow> None)"

section \<open>The classifier\<close>

lemma Cause_idem: "Cause (Cause e) = Cause e"
  by (induction e) simp_all

lemma Cause_not_Traced: "Cause e \<noteq> Traced x"
  by (induction e) simp_all

text \<open>
  C10. Classification is invariant under wrapping: two errors with the same root cause are
  classified alike, so tracing an error does not change its class, and every error is
  classified as its root cause is.
\<close>

theorem isRetryableError_wrapping:
  "(Cause w = Cause e \<longrightarrow> isRetryableError tm w = isRetryableError tm e)
   \<and> isRetryableError tm (Traced e) = isRetryableError tm e
   \<and> isRetryableError tm e = isRetryableError tm (Cause e)"
  by (simp add: isRetryableError_def Cause_idem)

theorem isRetryableError_wrapping_witness:
  "Cause (Traced (Traced (MySQLError 1062 ''dup''))) = Cause (MySQLError 1062 ''dup'')
   \<and> isRetryableError tidb_codes (Traced (Traced (MySQLError 1062 ''dup'')))
       = isRetryableError tidb_codes (MySQLError 1062 ''dup'')
   \<and> \<not> isRetryableError tidb_codes (MySQLError 1062 ''dup'')"
  using isRetryableError_wrapping [of "Traced (Traced (MySQLError 1062 ''dup''))" "MySQLError 1062 ''dup''" tidb_codes]
  by (simp add: isRetryableError_def tidb_codes_def)

text \<open>
  C4. The classifier table, for errors given bare or wrapped: the bad-connection
  sentinel is retryable (Transient); a network error is retryable when it reports a
  timeout and not retryable (Fatal) otherwise; the lock-deadlock code is retryable; a
  backend code outside the switch's list is not; and an error of no recognised shape is
  retryable by default.
\<close>

theorem classifier_table:
  "(Cause e1 = ErrBadConn \<longrightarrow> isRetryableError tm e1)
   \<and> (Cause e2 = NetError True \<longrightarrow> isRetryableError tm e2)
   \<and> (Cause e3 = NetError False \<longrightarrow> \<not> isRetryableError tm e3)
   \<and> (Cause e4 = MySQLError (ErrLockDeadlock tm) m4 \<longrightarrow> isRetryableError tm e4)
   \<and> (Cause e5 = MySQLError n5 m5 \<and>
        n5 \<notin> {ErrUnknown tm, ErrLockDeadlock tm, ErrPDServerTimeout tm, ErrTiKVServerTimeout tm,
               ErrTiKVServerBusy tm, ErrResolveLockTimeout tm, ErrRegionUnavailable tm}
        \<longrightarrow> \<not> isRetryableError tm e5)
   \<and> (Cause e6 \<noteq> ErrBadConn \<and> (\<forall>t. Cause e6 \<noteq> NetError t) \<and> (\<forall>n m. Cause e6 \<noteq> MySQLError n m)
        \<longrightarrow> isRetryableError tm e6)"
  by (auto simp: isRetryableError_def split: err.splits)

theorem classifier_table_witness:
  "Cause (Traced ErrBadConn) = ErrBadConn \<and> isRetryableError tidb_codes (Traced ErrBadConn)
   \<and> Cause (NetError True) = NetError True \<and> isRetryableError tidb_codes (NetError True)
   \<and> Cause (NetError False) = NetError False \<and> \<not> isRetryableError tidb_codes (NetError False)
   \<and> Cause (MySQLError 1213 ''deadlock'') = MySQLError (ErrLockDeadlock tidb_codes) ''deadlock''
   \<and> isRetryableError tidb_codes (MySQLError 1213 ''deadlock'')
   \<and> Cause (Traced (MySQLError 1062 ''dup'')) = MySQLError 1062 ''dup''
   \<and> \<not> isRetryableError tidb_codes (Traced (MySQLError 1062 ''dup''))
   \<and> Cause (OtherError ''EOF'') = OtherError ''EOF'' \<and> isRetryableError tidb_codes (OtherError ''EOF'')"
  using classifier_table [of "Traced ErrBadConn" tidb_codes "NetError True" "NetError False"
      "MySQLError 1213 ''deadlock''" "''deadlock''" "Traced (MySQLError 1062 ''dup'')" 1062 "''dup''"
      "OtherError ''EOF''"]
  by (simp add: isRetryableError_def tidb_codes_def)

text \<open>
  C6. A backend protocol error is retryable exactly when its number is one of the codes
  of the switch: unknown-error, lock-deadlock, the two server-timeout codes (PD and
  TiKV), server-busy, resolve-lock-timeout and region-unavailable; with any other number
  it is Fatal.
\<close>

theorem backend_code_classification:
  "Cause e = MySQLError n m \<Longrightarrow>
   isRetryableError tm e \<longleftrightarrow>
     n \<in> {ErrUnknown tm, ErrLockDeadlock tm, ErrPDServerTimeout tm, ErrTiKVServerTimeout tm,
          ErrTiKVServerBusy tm, ErrResolveLockTimeout tm, ErrRegionUnavailable tm}"
  by (auto simp: isRetryableError_def)

theorem backend_code_classification_witness:
  "Cause (Traced (MySQLError 9002 ''tikv timeout'')) = MySQLError 9002 ''tikv timeout''
   \<and> isRetryableError tidb_codes (Traced (MySQLError 9002 ''tikv timeout''))
   \<and> (9002 :: 16 word) \<in> {ErrUnknown tidb_codes, ErrLockDeadlock tidb_codes, ErrPDServerTimeout tidb_codes,
          ErrTiKVServerTimeout tidb_codes, ErrTiKVServerBusy tidb_codes, ErrResolveLockTimeout tidb_codes,
          ErrRegionUnavailable tidb_codes}"
  using backend_code_classification [of "Traced (MySQLError 9002 ''tikv timeout'')" 9002 "''tikv timeout''" tidb_codes]
  by (simp add: isRetryableError_def tidb_codes_def)

section \<open>One attempt\<close>

lemmas op_defs = db_BeginTx_def txn_ExecContext_def txn_Rollback_def txn_Commit_def
  db_QueryRowScan_def time_Sleep_def AppLogger_Debugf_def AppLogger_Warnf_def AppLogger_Errorf_def

lemma stmts_step_ok:
  assumes "fails env (trace w @ [OpExec s]) = None"
  shows "\<exists>w1. executeSQLImp_stmts env (s # rest) w = executeSQLImp_stmts env rest w1
     \<and> trace w1 = trace w @ [OpExec s]
     \<and> logs w1 = logs w @ [Log Debug ''[exec][sql] %s'' [AString s]]
     \<and> pending w1 = map_option (\<lambda>p. p @ [s]) (pending w)
     \<and> committed w1 = committed w \<and> dest w1 = dest w"
  using assms
  by (intro exI [of _ "snd (txn_ExecContext env s (AppLogger_Debugf ''[exec][sql] %s'' [AString s] w))"])
     (simp add: op_defs)

lemma stmts_fail:
  assumes "k < length ss"
    and "\<forall>j<k. fails env (trace w @ map OpExec (take (Suc j) ss)) = None"
    and "fails env (trace w @ map OpExec (take (Suc k) ss)) = Some e"
  shows "\<exists>w'. executeSQLImp_stmts env ss w = (Some (Traced e), w')
     \<and> trace w' = trace w @ map OpExec (take (Suc k) ss) @ [OpRollback]
     \<and> logs w' = logs w @ debug_logs (take (Suc k) ss)
                @ [Log Warn ''[exec][sql] %s [error]%v'' [AString (ss ! k), AError e]]
                @ (case fails env (trace w @ map OpExec (take (Suc k) ss) @ [OpRollback]) of
                     None \<Rightarrow> []
                   | Some rerr \<Rightarrow> [Log Error ''[exec][sql] %s [error] %v'' [AString (ss ! k), AError rerr]])
     \<and> pending w' = None \<and> committed w' = committed w \<and> dest w' = dest w"
  using assms
proof (induction ss arbitrary: k w)
  case Nil
  then show ?case by simp
next
  case (Cons s rest)
  show ?case
  proof (cases k)
    case 0
    with Cons.prems show ?thesis
      by (simp add: op_defs debug_logs_def split: option.splits)
  next
    case (Suc k')
    from Cons.prems Suc have first: "fails env (trace w @ [OpExec s]) = None"
      by (auto dest: spec [of _ 0])
    from stmts_step_ok [OF first, of rest] obtain w1 where
      step: "executeSQLImp_stmts env (s # rest) w = executeSQLImp_stmts env rest w1"
      and w1: "trace w1 = trace w @ [OpExec s]"
        "logs w1 = logs w @ [Log Debug ''[exec][sql] %s'' [AString s]]"
        "committed w1 = committed w" "dest w1 = dest w"
      by blast
    have k': "k' < length rest" using Cons.prems Suc by simp
    have ok: "\<forall>j<k'. fails env (trace w1 @ map OpExec (take (Suc j) rest)) = None"
    proof (intro allI impI)
      fix j assume "j < k'"
      then have "Suc j < k" using Suc by simp
      with Cons.prems(2) have "fails env (trace w @ map OpExec (take (Suc (Suc j)) (s # rest))) = None"
        by blast
      then show "fails env (trace w1 @ map OpExec (take (Suc j) rest)) = None"
        by (simp add: w1)
    qed
    have bad: "fails env (trace w1 @ map OpExec (take (Suc k') rest)) = Some e"
      using Cons.prems(3) Suc by (simp add: w1)
    from Cons.IH [OF k' ok bad] show ?thesis
      unfolding step using Suc by (auto simp: w1 debug_logs_def cong: option.case_cong)
  qed
qed

lemma stmts_ok:
  assumes "\<forall>j<length ss. fails env (trace w @ map OpExec (take (Suc j) ss)) = None"
  shows "\<exists>w'. executeSQLImp_stmts env ss w = (None, w')
     \<and> trace w' = trace w @ map OpExec ss \<and> logs w' = logs w @ debug_logs ss
     \<and> pending w' = map_option (\<lambda>p. p @ ss) (pending w)
     \<and> committed w' = committed w \<and> dest w' = dest w"
  using assms
proof (induction ss arbitrary: w)
  case Nil
  then show ?case by (simp add: debug_logs_def option.map_ident)
next
  case (Cons s rest)
  from Cons.prems have first: "fails env (trace w @ [OpExec s]) = None"
    by (auto dest: spec [of _ 0])
  from stmts_step_ok [OF first, of rest] obtain w1 where
    step: "executeSQLImp_stmts env (s # rest) w = executeSQLImp_stmts env rest w1"
    and w1: "trace w1 = trace w @ [OpExec s]"
      "logs w1 = logs w @ [Log Debug ''[exec][sql] %s'' [AString s]]"
      "pending w1 = map_option (\<lambda>p. p @ [s]) (pending w)"
      "committed w1 = committed w" "dest w1 = dest w"
    by blast
  have ok: "\<forall>j<length rest. fails env (trace w1 @ map OpExec (take (Suc j) rest)) = None"
  proof (intro allI impI)
    fix j assume "j < length rest"
    then have "Suc j < length (s # rest)" by simp
    with Cons.prems have "fails env (trace w @ map OpExec (take (Suc (Suc j)) (s # rest))) = None"
      by blast
    then show "fails env (trace w1 @ map OpExec (take (Suc j) rest)) = None"
      by (simp add: w1)
  qed
  from Cons.IH [OF ok] show ?case
    unfolding step by (auto simp: w1 debug_logs_def option.map_comp comp_def)
qed

text \<open>Facts of every attempt, whatever the driver answers.\<close>

lemma stmts_effects:
  "executeSQLImp_stmts env ss w = (r, w') \<Longrightarrow>
   committed w' = committed w \<and> dest w' = dest w
   \<and> begins (trace w') = begins (trace w) \<and> sleeps (trace w') = sleeps (trace w)
   \<and> (case r of None \<Rightarrow> pending w' = map_option (\<lambda>p. p @ ss) (pending w)
               | Some e \<Rightarrow> pending w' = None)"
proof (induction ss arbitrary: w)
  case Nil
  then show ?case by (auto simp: option.map_ident)
next
  case (Cons s rest)
  show ?case
  proof (cases "fails env (trace w @ [OpExec s])")
    case None
    from stmts_step_ok [OF None, of rest] obtain w1 where
      step: "executeSQLImp_stmts env (s # rest) w = executeSQLImp_stmts env rest w1"
      and w1: "trace w1 = trace w @ [OpExec s]"
        "pending w1 = map_option (\<lambda>p. p @ [s]) (pending w)"
        "committed w1 = committed w" "dest w1 = dest w"
      by blast
    from Cons.prems have "executeSQLImp_stmts env rest w1 = (r, w')" by (simp only: step)
    from Cons.IH [OF this] show ?thesis
      by (auto simp: w1 begins_def sleeps_def option.map_comp comp_def split: option.splits)
  next
    case (Some e)
    with Cons.prems show ?thesis
      by (cases "fails env (trace w @ [OpExec s, OpRollback])")
         (auto simp: op_defs begins_def sleeps_def)
  qed
qed

lemma executeSQLImp_effects:
  "executeSQLImp env sqls w = (r, w') \<Longrightarrow>
   committed w' = (if r = None then committed w @ sqls else committed w)
   \<and> dest w' = dest w \<and> pending w' = (case fails env (trace w @ [OpBeginTx]) of None \<Rightarrow> None | Some e \<Rightarrow> pending w)
   \<and> begins (trace w') = Suc (begins (trace w)) \<and> sleeps (trace w') = sleeps (trace w)"
proof (cases "fails env (trace w @ [OpBeginTx])")
  case (Some e)
  assume "executeSQLImp env sqls w = (r, w')"
  with Some show ?thesis
    by (auto simp: executeSQLImp_def op_defs begins_def sleeps_def)
next
  case None
  assume run: "executeSQLImp env sqls w = (r, w')"
  obtain w1 where w1: "db_BeginTx env w = (None, w1)" "trace w1 = trace w @ [OpBeginTx]"
    "pending w1 = Some []" "committed w1 = committed w" "dest w1 = dest w"
    using None by (simp add: op_defs)
  obtain r2 w2 where s2: "executeSQLImp_stmts env sqls w1 = (r2, w2)"
    by (cases "executeSQLImp_stmts env sqls w1")
  note eff = stmts_effects [OF s2]
  show ?thesis
  proof (cases r2)
    case (Some e)
    with run w1(1) s2 have "r = Some e" "w' = w2"
      by (simp_all add: executeSQLImp_def)
    with eff Some None show ?thesis
      by (simp add: w1 begins_def sleeps_def)
  next
    case rNone: None
    with eff have p2: "pending w2 = Some sqls" by (simp add: w1)
    show ?thesis
    proof (cases "fails env (trace w2 @ [OpCommit])")
      case None
      with run w1(1) s2 rNone have "r = None" "w' = snd (txn_Commit env w2)"
        by (simp_all add: executeSQLImp_def op_defs)
      with eff p2 None \<open>fails env (trace w @ [OpBeginTx]) = None\<close> show ?thesis
        by (simp add: w1 op_defs begins_def sleeps_def)
    next
      case (Some e)
      with run w1(1) s2 rNone have "r = Some (Traced e)"
        "w' = AppLogger_Errorf ''exec sqls [%v] commit failed %v'' [AStrings sqls, AErrorStack e] (snd (txn_Commit env w2))"
        by (simp_all add: executeSQLImp_def op_defs)
      with eff p2 Some \<open>fails env (trace w @ [OpBeginTx]) = None\<close> show ?thesis
        by (simp add: w1 op_defs begins_def sleeps_def)
    qed
  qed
qed

lemma stmts_success_only_if:
  "executeSQLImp_stmts env ss w = (None, w') \<Longrightarrow>
   \<forall>j<length ss. fails env (trace w @ map OpExec (take (Suc j) ss)) = None"
proof (induction ss arbitrary: w)
  case Nil
  then show ?case by simp
next
  case (Cons s rest)
  show ?case
  proof (cases "fails env (trace w @ [OpExec s])")
    case (Some e)
    with Cons.prems show ?thesis
      by (cases "fails env (trace w @ [OpExec s, OpRollback])") (auto simp: op_defs)
  next
    case None
    from stmts_step_ok [OF None, of rest] obtain w1 where
      step: "executeSQLImp_stmts env (s # rest) w = executeSQLImp_stmts env rest w1"
      and w1: "trace w1 = trace w @ [OpExec s]"
      by blast
    from Cons.prems have "executeSQLImp_stmts env rest w1 = (None, w')" by (simp only: step)
    from Cons.IH [OF this] have ih: "\<forall>j<length rest. fails env (trace w @ OpExec s # map OpExec (take (Suc j) rest)) = None"
      by (simp add: w1)
    show ?thesis
    proof (intro allI impI)
      fix j assume "j < length (s # rest)"
      then show "fails env (trace w @ map OpExec (take (Suc j) (s # rest))) = None"
        using None ih by (cases j) simp_all
    qed
  qed
qed

lemma begin_ok:
  assumes "fails env (trace w @ [OpBeginTx]) = None"
  shows "\<exists>w1. db_BeginTx env w = (None, w1) \<and> trace w1 = trace w @ [OpBeginTx]
     \<and> logs w1 = logs w \<and> committed w1 = committed w \<and> dest w1 = dest w
     \<and> pending w1 = Some []"
  using assms by (simp add: op_defs)

lemma stmts_trace:
  "executeSQLImp_stmts env ss w = (r, w') \<Longrightarrow>
   \<exists>ops. trace w' = trace w @ ops \<and> begins ops = 0 \<and> sleeps ops = []"
proof (induction ss arbitrary: w)
  case Nil
  then show ?case by (simp add: begins_def sleeps_def)
next
  case (Cons s rest)
  show ?case
  proof (cases "fails env (trace w @ [OpExec s])")
    case (Some e)
    with Cons.prems show ?thesis
      by (cases "fails env (trace w @ [OpExec s, OpRollback])")
         (auto simp: op_defs begins_def sleeps_def)
  next
    case None
    from stmts_step_ok [OF None, of rest] obtain w1 where
      step: "executeSQLImp_stmts env (s # rest) w = executeSQLImp_stmts env rest w1"
      and w1: "trace w1 = trace w @ [OpExec s]"
      by blast
    from Cons.prems have "executeSQLImp_stmts env rest w1 = (r, w')" by (simp only: step)
    from Cons.IH [OF this] obtain ops where
      "trace w' = trace w1 @ ops" "begins ops = 0" "sleeps ops = []" by blast
    then have "trace w' = trace w @ (OpExec s # ops) \<and> begins (OpExec s # ops) = 0
        \<and> sleeps (OpExec s # ops) = []"
      by (simp add: w1 begins_def sleeps_def)
    then show ?thesis by blast
  qed
qed

lemma attempt_begin_fail:
  assumes "fails env (trace w @ [OpBeginTx]) = Some e"
  shows "\<exists>w'. executeSQLImp env sqls w = (Some (Traced e), w')
     \<and> trace w' = trace w @ [OpBeginTx]
     \<and> logs w' = logs w @ [Log Error ''exec sqls [%v] begin failed %v'' [AStrings sqls, AErrorStack e]]
     \<and> pending w' = pending w \<and> committed w' = committed w \<and> dest w' = dest w"
  using assms by (simp add: executeSQLImp_def op_defs)

lemma attempt_stmt_fail:
  assumes "k < length sqls"
    and "fails env (trace w @ [OpBeginTx]) = None"
    and "\<forall>j<k. fails env (trace w @ OpBeginTx # map OpExec (take (Suc j) sqls)) = None"
    and "fails env (trace w @ OpBeginTx # map OpExec (take (Suc k) sqls)) = Some e"
  shows "\<exists>w'. executeSQLImp env sqls w = (Some (Traced e), w')
     \<and> trace w' = trace w @ OpBeginTx # map OpExec (take (Suc k) sqls) @ [OpRollback]
     \<and> logs w' = logs w @ debug_logs (take (Suc k) sqls)
                @ [Log Warn ''[exec][sql] %s [error]%v'' [AString (sqls ! k), AError e]]
                @ (case fails env (trace w @ OpBeginTx # map OpExec (take (Suc k) sqls) @ [OpRollback]) of
                     None \<Rightarrow> []
                   | Some rerr \<Rightarrow> [Log Error ''[exec][sql] %s [error] %v'' [AString (sqls ! k), AError rerr]])
     \<and> pending w' = None \<and> committed w' = committed w \<and> dest w' = dest w"
proof -
  obtain w1 where w1: "db_BeginTx env w = (None, w1)" "trace w1 = trace w @ [OpBeginTx]"
    "logs w1 = logs w" "committed w1 = committed w" "dest w1 = dest w"
    using begin_ok [OF assms(2)] by blast
  have ok: "\<forall>j<k. fails env (trace w1 @ map OpExec (take (Suc j) sqls)) = None"
    using assms(3) by (simp add: w1)
  have bad: "fails env (trace w1 @ map OpExec (take (Suc k) sqls)) = Some e"
    using assms(4) by (simp add: w1)
  from stmts_fail [OF assms(1) ok bad] obtain w' where
    "executeSQLImp_stmts env sqls w1 = (Some (Traced e), w')"
    "trace w' = trace w1 @ map OpExec (take (Suc k) sqls) @ [OpRollback]"
    "logs w' = logs w1 @ debug_logs (take (Suc k) sqls)
                @ [Log Warn ''[exec][sql] %s [error]%v'' [AString (sqls ! k), AError e]]
                @ (case fails env (trace w1 @ map OpExec (take (Suc k) sqls) @ [OpRollback]) of
                     None \<Rightarrow> []
                   | Some rerr \<Rightarrow> [Log Error ''[exec][sql] %s [error] %v'' [AString (sqls ! k), AError rerr]])"
    "pending w' = None" "committed w' = committed w1" "dest w' = dest w1"
    by blast
  then show ?thesis
    by (simp add: executeSQLImp_def w1)
qed

lemma attempt_commit:
  assumes "fails env (trace w @ [OpBeginTx]) = None"
    and "\<forall>j<length sqls. fails env (trace w @ OpBeginTx # map OpExec (take (Suc j) sqls)) = None"
  shows "\<exists>w'. executeSQLImp env sqls w =
        (map_option Traced (fails env (trace w @ OpBeginTx # map OpExec sqls @ [OpCommit])), w')
     \<and> trace w' = trace w @ OpBeginTx # map OpExec sqls @ [OpCommit]
     \<and> logs w' = logs w @ debug_logs sqls
          @ (case fails env (trace w @ OpBeginTx # map OpExec sqls @ [OpCommit]) of
               None \<Rightarrow> []
             | Some e \<Rightarrow> [Log Error ''exec sqls [%v] commit failed %v'' [AStrings sqls, AErrorStack e]])
     \<and> pending w' = None
     \<and> committed w' = (case fails env (trace w @ OpBeginTx # map OpExec sqls @ [OpCommit]) of
                          None \<Rightarrow> committed w @ sqls | Some e \<Rightarrow> committed w)
     \<and> dest w' = dest w"
proof -
  obtain w1 where w1: "db_BeginTx env w = (None, w1)" "trace w1 = trace w @ [OpBeginTx]"
    "logs w1 = logs w" "committed w1 = committed w" "dest w1 = dest w" "pending w1 = Some []"
    using begin_ok [OF assms(1)] by blast
  have ok: "\<forall>j<length sqls. fails env (trace w1 @ map OpExec (take (Suc j) sqls)) = None"
    using assms(2) by (simp add: w1)
  from stmts_ok [OF ok] obtain w2 where w2:
    "executeSQLImp_stmts env sqls w1 = (None, w2)"
    "trace w2 = trace w1 @ map OpExec sqls" "logs w2 = logs w1 @ debug_logs sqls"
    "pending w2 = map_option (\<lambda>p. p @ sqls) (pending w1)"
    "committed w2 = committed w1" "dest w2 = dest w1"
    by blast
  have run: "executeSQLImp env sqls w =
      (case txn_Commit env w2 of
         (Some e, w3) \<Rightarrow>
           (Some (Traced e),
            AppLogger_Errorf ''exec sqls [%v] commit failed %v'' [AStrings sqls, AErrorStack e] w3)
       | (None, w3) \<Rightarrow> (None, w3))"
    by (simp add: executeSQLImp_def w1(1) w2(1))
  have tr2: "trace w2 @ [OpCommit] = trace w @ OpBeginTx # map OpExec sqls @ [OpCommit]"
    by (simp add: w1 w2)
  show ?thesis
    unfolding run
    by (cases "fails env (trace w @ OpBeginTx # map OpExec sqls @ [OpCommit])")
       (simp_all add: txn_Commit_def AppLogger_Errorf_def tr2 w1 w2)
qed

lemma attempt_success_only_if:
  assumes "executeSQLImp env sqls w = (None, w')"
  shows "fails env (trace w @ [OpBeginTx]) = None
     \<and> (\<forall>j<length sqls. fails env (trace w @ OpBeginTx # map OpExec (take (Suc j) sqls)) = None)
     \<and> fails env (trace w @ OpBeginTx # map OpExec sqls @ [OpCommit]) = None"
proof -
  have b: "fails env (trace w @ [OpBeginTx]) = None"
    using assms by (cases "fails env (trace w @ [OpBeginTx])") (simp_all add: executeSQLImp_def op_defs)
  obtain w1 where w1: "db_BeginTx env w = (None, w1)" "trace w1 = trace w @ [OpBeginTx]"
    using begin_ok [OF b] by blast
  obtain r2 w2 where s2: "executeSQLImp_stmts env sqls w1 = (r2, w2)"
    by (cases "executeSQLImp_stmts env sqls w1")
  have r2: "r2 = None"
    using assms w1(1) s2 by (cases r2) (simp_all add: executeSQLImp_def)
  from stmts_success_only_if [OF s2 [unfolded r2]]
  have s: "\<forall>j<length sqls. fails env (trace w @ OpBeginTx # map OpExec (take (Suc j) sqls)) = None"
    by (simp add: w1)
  from attempt_commit [OF b s] assms
  have "fails env (trace w @ OpBeginTx # map OpExec sqls @ [OpCommit]) = None"
    by auto
  with b s show ?thesis by simp
qed

lemma attempt_trace:
  "executeSQLImp env sqls w = (r, w') \<Longrightarrow>
   \<exists>ops. trace w' = trace w @ OpBeginTx # ops \<and> begins ops = 0 \<and> sleeps ops = []"
proof -
  assume run: "executeSQLImp env sqls w = (r, w')"
  show ?thesis
  proof (cases "fails env (trace w @ [OpBeginTx])")
    case (Some e)
    with run show ?thesis
      by (auto simp: executeSQLImp_def op_defs begins_def sleeps_def)
  next
    case None
    obtain w1 where w1: "db_BeginTx env w = (None, w1)" "trace w1 = trace w @ [OpBeginTx]"
      using begin_ok [OF None] by blast
    obtain r2 w2 where s2: "executeSQLImp_stmts env sqls w1 = (r2, w2)"
      by (cases "executeSQLImp_stmts env sqls w1")
    from stmts_trace [OF s2] obtain ops where
      ops: "trace w2 = trace w1 @ ops" "begins ops = 0" "sleeps ops = []" by blast
    show ?thesis
    proof (cases r2)
      case (Some e)
      with run w1(1) s2 have "w' = w2" by (simp add: executeSQLImp_def)
      with ops w1 show ?thesis by simp
    next
      case rNone: None
      have "trace w' = trace w @ OpBeginTx # (ops @ [OpCommit])"
        using run w1 s2 rNone ops
        by (cases "fails env (trace w2 @ [OpCommit])") (auto simp: executeSQLImp_def op_defs)
      moreover have "begins (ops @ [OpCommit]) = 0" "sleeps (ops @ [OpCommit]) = []"
        using ops by (simp_all add: begins_def sleeps_def)
      ultimately show ?thesis by blast
    qed
  qed
qed

section \<open>Retrying, step by step\<close>

lemma pause_fields:
  "trace (ExecWithRetry_pause sqls i w) = trace w @ (if i > 0 then [OpSleep retryTimeout] else [])"
  "logs (ExecWithRetry_pause sqls i w) =
     logs w @ (if i > 0 then [Log Warn ''sql stmt_exec retry %d: %v'' [AInt i, AStrings sqls]] else [])"
  "committed (ExecWithRetry_pause sqls i w) = committed w"
  "pending (ExecWithRetry_pause sqls i w) = pending w"
  "dest (ExecWithRetry_pause sqls i w) = dest w"
  by (simp_all add: ExecWithRetry_pause_def op_defs)

lemma loop_fatal:
  "i < maxRetry \<Longrightarrow> executeSQLImp env sqls (ExecWithRetry_pause sqls i w) = (Some e, w1) \<Longrightarrow>
   \<not> isRetryableError (codes env) e \<Longrightarrow>
   ExecWithRetry_loop env sqls maxRetry i err w =
     (Return (Some (Traced e)),
      AppLogger_Errorf ''[exec][sql] %s [error] %v'' [AStrings sqls, AError e] w1)"
  by (subst ExecWithRetry_loop.simps) simp

lemma loop_retry:
  "i < maxRetry \<Longrightarrow> executeSQLImp env sqls (ExecWithRetry_pause sqls i w) = (Some e, w1) \<Longrightarrow>
   isRetryableError (codes env) e \<Longrightarrow>
   ExecWithRetry_loop env sqls maxRetry i err w =
     ExecWithRetry_loop env sqls maxRetry (i + 1) (Some e) w1"
  by (subst ExecWithRetry_loop.simps) simp

lemma loop_success:
  "i < maxRetry \<Longrightarrow> executeSQLImp env sqls (ExecWithRetry_pause sqls i w) = (None, w1) \<Longrightarrow>
   ExecWithRetry_loop env sqls maxRetry i err w = (Return None, w1)"
  by (subst ExecWithRetry_loop.simps) simp

lemma loop_exit:
  "\<not> i < maxRetry \<Longrightarrow>
   ExecWithRetry_loop env sqls maxRetry i err w =
     (case err of
        None \<Rightarrow> (Panic, w)
      | Some e \<Rightarrow>
          (Return (Some (Errorf ''exec sqls [%v] failed, err:%s'' [AStrings sqls, AErrorText e])), w))"
  by (subst ExecWithRetry_loop.simps) simp

lemma loop_committed:
  "ExecWithRetry_loop env sqls maxRetry i err w = (out, w') \<Longrightarrow>
   committed w' = (if out = Return None then committed w @ sqls else committed w)"
proof (induction env sqls maxRetry i err w arbitrary: out w' rule: ExecWithRetry_loop.induct)
  case (1 env sqls maxRetry i err w)
  show ?case
  proof (cases "i < maxRetry")
    case False
    with "1.prems" show ?thesis
      by (cases err) (auto simp: loop_exit)
  next
    case True
    obtain r w1 where a: "executeSQLImp env sqls (ExecWithRetry_pause sqls i w) = (r, w1)"
      by (cases "executeSQLImp env sqls (ExecWithRetry_pause sqls i w)")
    from executeSQLImp_effects [OF a]
    have c1: "committed w1 = (if r = None then committed w @ sqls else committed w)"
      by (simp add: pause_fields)
    show ?thesis
    proof (cases r)
      case None
      with "1.prems" a True c1 show ?thesis by (simp add: loop_success)
    next
      case (Some e)
      show ?thesis
      proof (cases "isRetryableError (codes env) e")
        case False
        with "1.prems" a True c1 Some show ?thesis
          by (auto simp: loop_fatal AppLogger_Errorf_def)
      next
        case retry: True
        from "1.prems" have "ExecWithRetry_loop env sqls maxRetry (i + 1) (Some e) w1 = (out, w')"
          using loop_retry [OF True a [unfolded Some] retry] by simp
        from "1.IH" [OF True a [symmetric] Some retry this] c1 Some show ?thesis by simp
      qed
    qed
  qed
qed

lemma ExecWithRetry_exhausted:
  assumes "sqls \<noteq> []"
    and "executeSQLImp env sqls w = (Some e1, w1)" "isRetryableError (codes env) e1"
    and "executeSQLImp env sqls (ExecWithRetry_pause sqls 1 w1) = (Some e2, w2)"
      "isRetryableError (codes env) e2"
    and "executeSQLImp env sqls (ExecWithRetry_pause sqls 2 w2) = (Some e3, w3)"
      "isRetryableError (codes env) e3"
  shows "ExecWithRetry env sqls w =
     (Return (Some (Errorf ''exec sqls [%v] failed, err:%s'' [AStrings sqls, AErrorText e3])), w3)"
proof -
  have p0: "ExecWithRetry_pause sqls 0 w = w" by (simp add: ExecWithRetry_pause_def)
  have "ExecWithRetry env sqls w = ExecWithRetry_loop env sqls 3 0 None w"
    using assms(1) by (simp add: ExecWithRetry_def defaultMaxRetry_def)
  also have "\<dots> = ExecWithRetry_loop env sqls 3 1 (Some e1) w1"
    using loop_retry [of 0 3 env sqls w e1 w1 None] assms(2,3) by (simp add: p0)
  also have "\<dots> = ExecWithRetry_loop env sqls 3 2 (Some e2) w2"
    using loop_retry [of 1 3 env sqls w1 e2 w2 "Some e1"] assms(4,5) by simp
  also have "\<dots> = ExecWithRetry_loop env sqls 3 3 (Some e3) w3"
    using loop_retry [of 2 3 env sqls w2 e3 w3 "Some e2"] assms(6,7) by simp
  also have "\<dots> = (Return (Some (Errorf ''exec sqls [%v] failed, err:%s''
                          [AStrings sqls, AErrorText e3])), w3)"
    by (simp add: loop_exit)
  finally show ?thesis .
qed

lemma ExecWithRetry_exhausted_trace:
  assumes "executeSQLImp env sqls w = (Some e1, w1)"
    and "executeSQLImp env sqls (ExecWithRetry_pause sqls 1 w1) = (Some e2, w2)"
    and "executeSQLImp env sqls (ExecWithRetry_pause sqls 2 w2) = (Some e3, w3)"
  shows "\<exists>a1 a2 a3. trace w3 = trace w @ OpBeginTx # a1 @ OpSleep retryTimeout # OpBeginTx # a2
            @ OpSleep retryTimeout # OpBeginTx # a3
          \<and> begins (a1 @ a2 @ a3) = 0 \<and> sleeps (a1 @ a2 @ a3) = []"
proof -
  from attempt_trace [OF assms(1)] obtain a1 where
    a1: "trace w1 = trace w @ OpBeginTx # a1" "begins a1 = 0" "sleeps a1 = []" by blast
  from attempt_trace [OF assms(2)] obtain a2 where
    a2: "trace w2 = trace w1 @ OpSleep retryTimeout # OpBeginTx # a2" "begins a2 = 0" "sleeps a2 = []"
    by (auto simp: pause_fields)
  from attempt_trace [OF assms(3)] obtain a3 where
    a3: "trace w3 = trace w2 @ OpSleep retryTimeout # OpBeginTx # a3" "begins a3 = 0" "sleeps a3 = []"
    by (auto simp: pause_fields)
  have "trace w3 = trace w @ OpBeginTx # a1 @ OpSleep retryTimeout # OpBeginTx # a2
            @ OpSleep retryTimeout # OpBeginTx # a3"
    by (simp add: a1 a2 a3)
  moreover have "begins (a1 @ a2 @ a3) = 0" "sleeps (a1 @ a2 @ a3) = []"
    using a1 a2 a3 by (simp_all add: begins_def sleeps_def)
  ultimately show ?thesis by blast
qed

lemma query_scan:
  "db_QueryRowScan env q w = (r, w1) \<Longrightarrow>
   r = fails env (trace w @ [OpQueryRow q]) \<and> trace w1 = trace w @ [OpQueryRow q]
   \<and> logs w1 = logs w \<and> committed w1 = committed w \<and> pending w1 = pending w
   \<and> dest w1 = scans env (trace w @ [OpQueryRow q]) (dest w)"
  by (auto simp: op_defs Let_def)

lemma query_scan_ex:
  "\<exists>w1. db_QueryRowScan env q w = (fails env (trace w @ [OpQueryRow q]), w1)"
  by (simp add: op_defs Let_def)

lemma qpause_fields:
  "trace (QueryRowWithRetry_pause q i w) = trace w @ (if i > 0 then [OpSleep retryTimeout] else [])"
  "logs (QueryRowWithRetry_pause q i w) =
     logs w @ (if i > 0 then [Log Warn ''query %s retry %d'' [AString q, AInt i]] else [])"
  "committed (QueryRowWithRetry_pause q i w) = committed w"
  "pending (QueryRowWithRetry_pause q i w) = pending w"
  "dest (QueryRowWithRetry_pause q i w) = dest w"
  by (simp_all add: QueryRowWithRetry_pause_def op_defs)

lemma qloop_fatal:
  "i < maxRetry \<Longrightarrow> db_QueryRowScan env q (QueryRowWithRetry_pause q i w) = (Some e, w1) \<Longrightarrow>
   \<not> isRetryableError (codes env) e \<Longrightarrow>
   QueryRowWithRetry_loop env q maxRetry i w = (Some (Traced e), w1)"
  by (subst QueryRowWithRetry_loop.simps) simp

lemma qloop_retry:
  "i < maxRetry \<Longrightarrow> db_QueryRowScan env q (QueryRowWithRetry_pause q i w) = (Some e, w1) \<Longrightarrow>
   isRetryableError (codes env) e \<Longrightarrow>
   QueryRowWithRetry_loop env q maxRetry i w =
     QueryRowWithRetry_loop env q maxRetry (i + 1)
       (AppLogger_Warnf ''query %s [error] %v'' [AString q, AError e] w1)"
  by (subst QueryRowWithRetry_loop.simps) simp

lemma qloop_success:
  "i < maxRetry \<Longrightarrow> db_QueryRowScan env q (QueryRowWithRetry_pause q i w) = (None, w1) \<Longrightarrow>
   QueryRowWithRetry_loop env q maxRetry i w = (None, w1)"
  by (subst QueryRowWithRetry_loop.simps) simp

lemma qloop_exit:
  "\<not> i < maxRetry \<Longrightarrow>
   QueryRowWithRetry_loop env q maxRetry i w =
     (Some (Errorf ''query sql [%s] failed'' [AString q]), w)"
  by (subst QueryRowWithRetry_loop.simps) simp

lemma QueryRowWithRetry_exhausted:
  assumes "fails env (trace w @ [OpQueryRow q]) = Some e1" "isRetryableError (codes env) e1"
    and "fails env (trace w @ [OpQueryRow q, OpSleep retryTimeout, OpQueryRow q]) = Some e2"
      "isRetryableError (codes env) e2"
    and "fails env (trace w @ [OpQueryRow q, OpSleep retryTimeout, OpQueryRow q,
                                OpSleep retryTimeout, OpQueryRow q]) = Some e3"
      "isRetryableError (codes env) e3"
  shows "\<exists>w'. QueryRowWithRetry env q w = (Some (Errorf ''query sql [%s] failed'' [AString q]), w')
     \<and> trace w' = trace w @ [OpQueryRow q, OpSleep retryTimeout, OpQueryRow q,
                              OpSleep retryTimeout, OpQueryRow q]
     \<and> logs w' = logs w @
         [Log Warn ''query %s [error] %v'' [AString q, AError e1],
          Log Warn ''query %s retry %d'' [AString q, AInt 1],
          Log Warn ''query %s [error] %v'' [AString q, AError e2],
          Log Warn ''query %s retry %d'' [AString q, AInt 2],
          Log Warn ''query %s [error] %v'' [AString q, AError e3]]"
proof -
  let ?warn = "\<lambda>e. AppLogger_Warnf ''query %s [error] %v'' [AString q, AError e]"
  obtain w1 where s1: "db_QueryRowScan env q (QueryRowWithRetry_pause q 0 w) = (Some e1, w1)"
    using assms(1) query_scan_ex [of env q "QueryRowWithRetry_pause q 0 w"]
    by (auto simp: qpause_fields)
  note f1 = query_scan [OF s1, unfolded qpause_fields]
  obtain w2 where s2: "db_QueryRowScan env q (QueryRowWithRetry_pause q 1 (?warn e1 w1)) = (Some e2, w2)"
    using assms(3) f1 query_scan_ex [of env q "QueryRowWithRetry_pause q 1 (?warn e1 w1)"]
    by (auto simp: qpause_fields op_defs)
  note f2 = query_scan [OF s2, unfolded qpause_fields]
  have t2: "trace w2 = trace w @ [OpQueryRow q, OpSleep retryTimeout, OpQueryRow q]"
    using f1 f2 by (simp add: op_defs)
  obtain w3 where s3: "db_QueryRowScan env q (QueryRowWithRetry_pause q 2 (?warn e2 w2)) = (Some e3, w3)"
    using assms(5) t2 query_scan_ex [of env q "QueryRowWithRetry_pause q 2 (?warn e2 w2)"]
    by (auto simp: qpause_fields op_defs)
  note f3 = query_scan [OF s3, unfolded qpause_fields]
  have "QueryRowWithRetry env q w = QueryRowWithRetry_loop env q 3 0 w"
    by (simp add: QueryRowWithRetry_def defaultMaxRetry_def)
  also have "\<dots> = QueryRowWithRetry_loop env q 3 1 (?warn e1 w1)"
    using qloop_retry [of 0 3 env q w e1 w1] s1 assms(2) by simp
  also have "\<dots> = QueryRowWithRetry_loop env q 3 2 (?warn e2 w2)"
    using qloop_retry [of 1 3 env q "?warn e1 w1" e2 w2] s2 assms(4) by simp
  also have "\<dots> = QueryRowWithRetry_loop env q 3 3 (?warn e3 w3)"
    using qloop_retry [of 2 3 env q "?warn e2 w2" e3 w3] s3 assms(6) by simp
  also have "\<dots> = (Some (Errorf ''query sql [%s] failed'' [AString q]), ?warn e3 w3)"
    by (simp add: qloop_exit)
  finally have run: "QueryRowWithRetry env q w =
      (Some (Errorf ''query sql [%s] failed'' [AString q]), ?warn e3 w3)" .
  have "trace (?warn e3 w3) = trace w @ [OpQueryRow q, OpSleep retryTimeout, OpQueryRow q,
                              OpSleep retryTimeout, OpQueryRow q]"
    using f3 t2 by (simp add: op_defs)
  moreover have "logs (?warn e3 w3) = logs w @
         [Log Warn ''query %s [error] %v'' [AString q, AError e1],
          Log Warn ''query %s retry %d'' [AString q, AInt 1],
          Log Warn ''query %s [error] %v'' [AString q, AError e2],
          Log Warn ''query %s retry %d'' [AString q, AInt 2],
          Log Warn ''query %s [error] %v'' [AString q, AError e3]]"
    using f1 f2 f3 by (simp add: op_defs)
  ultimately show ?thesis using run by blast
qed

lemma loop_trace_grows:
  "\<exists>ext. trace (snd (ExecWithRetry_loop env sqls maxRetry i err w)) = trace w @ ext"
proof (induction env sqls maxRetry i err w rule: ExecWithRetry_loop.induct)
  case (1 env sqls maxRetry i err w)
  show ?case
  proof (cases "i < maxRetry")
    case False
    then show ?thesis by (cases err) (simp_all add: loop_exit)
  next
    case True
    obtain r w1 where a: "executeSQLImp env sqls (ExecWithRetry_pause sqls i w) = (r, w1)"
      by (cases "executeSQLImp env sqls (ExecWithRetry_pause sqls i w)")
    from attempt_trace [OF a] obtain ops where
      t1: "trace w1 = trace w @ (if i > 0 then [OpSleep retryTimeout] else []) @ OpBeginTx # ops"
      by (auto simp: pause_fields)
    show ?thesis
    proof (cases r)
      case None
      with a True t1 show ?thesis by (simp add: loop_success)
    next
      case (Some e)
      show ?thesis
      proof (cases "isRetryableError (codes env) e")
        case False
        with a True t1 Some show ?thesis
          by (simp add: loop_fatal AppLogger_Errorf_def)
      next
        case retry: True
        from "1.IH" [OF True a [symmetric] Some retry] obtain ext where
          "trace (snd (ExecWithRetry_loop env sqls maxRetry (i + 1) (Some e) w1)) = trace w1 @ ext"
          by blast
        then show ?thesis
          using loop_retry [OF True a [unfolded Some] retry, of err] t1 by simp
      qed
    qed
  qed
qed

lemma loop_next_attempt:
  assumes "i < maxRetry"
  shows "\<exists>rest. trace (snd (ExecWithRetry_loop env sqls maxRetry i err w))
           = trace (ExecWithRetry_pause sqls i w) @ OpBeginTx # rest"
proof -
  obtain r w1 where a: "executeSQLImp env sqls (ExecWithRetry_pause sqls i w) = (r, w1)"
    by (cases "executeSQLImp env sqls (ExecWithRetry_pause sqls i w)")
  from attempt_trace [OF a] obtain ops where
    t1: "trace w1 = trace (ExecWithRetry_pause sqls i w) @ OpBeginTx # ops"
    by blast
  show ?thesis
  proof (cases r)
    case None
    with a assms t1 show ?thesis by (simp add: loop_success)
  next
    case (Some e)
    show ?thesis
    proof (cases "isRetryableError (codes env) e")
      case False
      with a assms t1 Some show ?thesis
        by (simp add: loop_fatal AppLogger_Errorf_def)
    next
      case True
      from loop_trace_grows [of env sqls maxRetry "i + 1" "Some e" w1] obtain ext where
        "trace (snd (ExecWithRetry_loop env sqls maxRetry (i + 1) (Some e) w1)) = trace w1 @ ext"
        by blast
      then show ?thesis
        using loop_retry [OF assms a [unfolded Some] True, of err] t1 by simp
    qed
  qed
qed

lemma begins_simps:
  "begins [] = 0" "begins (xs @ ys) = begins xs + begins ys"
  "begins (op # xs) = (if op = OpBeginTx then 1 else 0) + begins xs"
  by (simp_all add: begins_def)

lemma sleeps_simps:
  "sleeps [] = []" "sleeps (xs @ ys) = sleeps xs @ sleeps ys"
  "sleeps (OpSleep d # xs) = d # sleeps xs" "sleeps (OpBeginTx # xs) = sleeps xs"
  by (simp_all add: sleeps_def)

lemmas eval_defs = env_of_def world0_def executeSQLImp_def op_defs Let_def isRetryableError_def
  tidb_codes_def ExecWithRetry_pause_def QueryRowWithRetry_pause_def ExecWithRetry_def
  QueryRowWithRetry_def defaultMaxRetry_def

section \<open>The empty batch and the fatal short-circuit\<close>

text \<open>
  C9. For the empty batch \<^verbatim>\<open>ExecWithRetry\<close> returns \<^verbatim>\<open>nil\<close> at once and leaves the state as it
  was: nothing is added to the history (no begin, commit, rollback or sleep) or to the log.
\<close>

theorem empty_batch:
  "ExecWithRetry env [] w = (Return None, w)"
  by (simp add: ExecWithRetry_def)

text \<open>
  C2. Fatal short-circuit. When the attempt of iteration \<open>i\<close> fails with an error that is
  not retryable, the batch loop returns that error traced, in the state the attempt left
  plus one error line in the log, whatever \<open>maxRetry\<close> is; so \<^verbatim>\<open>ExecWithRetry\<close>, whose
  first attempt fails so, has begun exactly one transaction and slept not at all. The
  query loop likewise returns the traced error in the state the failed \<^verbatim>\<open>Scan\<close> left, and
  \<^verbatim>\<open>QueryRowWithRetry\<close> has issued exactly one query and no sleep.
\<close>

theorem fatal_short_circuit:
  "(i < maxRetry \<and> executeSQLImp env sqls (ExecWithRetry_pause sqls i w) = (Some e, wa)
      \<and> \<not> isRetryableError (codes env) e
    \<longrightarrow> ExecWithRetry_loop env sqls maxRetry i err w =
          (Return (Some (Traced e)),
           AppLogger_Errorf ''[exec][sql] %s [error] %v'' [AStrings sqls, AError e] wa))
   \<and> (sqls \<noteq> [] \<and> executeSQLImp env sqls w = (Some e, wa) \<and> \<not> isRetryableError (codes env) e
    \<longrightarrow> ExecWithRetry env sqls w =
          (Return (Some (Traced e)),
           AppLogger_Errorf ''[exec][sql] %s [error] %v'' [AStrings sqls, AError e] wa)
        \<and> begins (trace (snd (ExecWithRetry env sqls w))) = begins (trace w) + 1
        \<and> sleeps (trace (snd (ExecWithRetry env sqls w))) = sleeps (trace w))
   \<and> (i < maxRetry \<and> db_QueryRowScan env q (QueryRowWithRetry_pause q i v) = (Some qe, va)
      \<and> \<not> isRetryableError (codes env) qe
    \<longrightarrow> QueryRowWithRetry_loop env q maxRetry i v = (Some (Traced qe), va))
   \<and> (fails env (trace v @ [OpQueryRow q]) = Some qe \<and> \<not> isRetryableError (codes env) qe
    \<longrightarrow> (\<exists>v'. QueryRowWithRetry env q v = (Some (Traced qe), v')
           \<and> trace v' = trace v @ [OpQueryRow q] \<and> logs v' = logs v))"
proof (intro conjI impI)
  assume "i < maxRetry \<and> executeSQLImp env sqls (ExecWithRetry_pause sqls i w) = (Some e, wa)
      \<and> \<not> isRetryableError (codes env) e"
  then show "ExecWithRetry_loop env sqls maxRetry i err w =
          (Return (Some (Traced e)),
           AppLogger_Errorf ''[exec][sql] %s [error] %v'' [AStrings sqls, AError e] wa)"
    by (simp add: loop_fatal)
next
  assume h: "sqls \<noteq> [] \<and> executeSQLImp env sqls w = (Some e, wa) \<and> \<not> isRetryableError (codes env) e"
  then have a: "executeSQLImp env sqls (ExecWithRetry_pause sqls 0 w) = (Some e, wa)"
    by (simp add: ExecWithRetry_pause_def)
  have "ExecWithRetry env sqls w = ExecWithRetry_loop env sqls 3 0 None w"
    using h by (simp add: ExecWithRetry_def defaultMaxRetry_def)
  also have "\<dots> = (Return (Some (Traced e)),
           AppLogger_Errorf ''[exec][sql] %s [error] %v'' [AStrings sqls, AError e] wa)"
    using loop_fatal [of 0 3 env sqls w e wa None] a h by simp
  finally show run: "ExecWithRetry env sqls w =
          (Return (Some (Traced e)),
           AppLogger_Errorf ''[exec][sql] %s [error] %v'' [AStrings sqls, AError e] wa)" .
  from h executeSQLImp_effects [of env sqls w "Some e" wa]
  show "begins (trace (snd (ExecWithRetry env sqls w))) = begins (trace w) + 1"
    and "sleeps (trace (snd (ExecWithRetry env sqls w))) = sleeps (trace w)"
    unfolding run by (simp_all add: AppLogger_Errorf_def)
next
  assume "i < maxRetry \<and> db_QueryRowScan env q (QueryRowWithRetry_pause q i v) = (Some qe, va)
      \<and> \<not> isRetryableError (codes env) qe"
  then show "QueryRowWithRetry_loop env q maxRetry i v = (Some (Traced qe), va)"
    by (simp add: qloop_fatal)
next
  assume h: "fails env (trace v @ [OpQueryRow q]) = Some qe \<and> \<not> isRetryableError (codes env) qe"
  obtain va where s1: "db_QueryRowScan env q (QueryRowWithRetry_pause q 0 v) = (Some qe, va)"
    using h query_scan_ex [of env q "QueryRowWithRetry_pause q 0 v"]
    by (auto simp: qpause_fields)
  note f1 = query_scan [OF s1, unfolded qpause_fields]
  have "QueryRowWithRetry env q v = (Some (Traced qe), va)"
    using qloop_fatal [of 0 3 env q v qe va] s1 h
    by (simp add: QueryRowWithRetry_def defaultMaxRetry_def)
  with f1 show "\<exists>v'. QueryRowWithRetry env q v = (Some (Traced qe), v')
           \<and> trace v' = trace v @ [OpQueryRow q] \<and> logs v' = logs v"
    by simp
qed

theorem fatal_short_circuit_witness:
  "executeSQLImp (env_of (\<lambda>tr. if length tr = 3 then Some (MySQLError 1062 ''dup'') else None))
      [''INSERT INTO t VALUES (1)'', ''INSERT INTO t VALUES (2)''] world0
     = (Some (Traced (MySQLError 1062 ''dup'')),
        snd (executeSQLImp (env_of (\<lambda>tr. if length tr = 3 then Some (MySQLError 1062 ''dup'') else None))
          [''INSERT INTO t VALUES (1)'', ''INSERT INTO t VALUES (2)''] world0))
   \<and> \<not> isRetryableError tidb_codes (Traced (MySQLError 1062 ''dup''))
   \<and> fst (ExecWithRetry (env_of (\<lambda>tr. if length tr = 3 then Some (MySQLError 1062 ''dup'') else None))
      [''INSERT INTO t VALUES (1)'', ''INSERT INTO t VALUES (2)''] world0)
     = Return (Some (Traced (Traced (MySQLError 1062 ''dup''))))
   \<and> trace (snd (ExecWithRetry (env_of (\<lambda>tr. if length tr = 3 then Some (MySQLError 1062 ''dup'') else None))
      [''INSERT INTO t VALUES (1)'', ''INSERT INTO t VALUES (2)''] world0))
     = [OpBeginTx, OpExec ''INSERT INTO t VALUES (1)'', OpExec ''INSERT INTO t VALUES (2)'', OpRollback]
   \<and> fails (env_of (\<lambda>tr. if length tr = 1 then Some (NetError False) else None))
        (trace world0 @ [OpQueryRow ''SELECT 1'']) = Some (NetError False)
   \<and> fst (QueryRowWithRetry (env_of (\<lambda>tr. if length tr = 1 then Some (NetError False) else None))
        ''SELECT 1'' world0) = Some (Traced (NetError False))
   \<and> trace (snd (QueryRowWithRetry (env_of (\<lambda>tr. if length tr = 1 then Some (NetError False) else None))
        ''SELECT 1'' world0)) = [OpQueryRow ''SELECT 1'']"
  using fatal_short_circuit [where i = 0 and maxRetry = 3 and err = None and w = world0
      and env = "env_of (\<lambda>tr. if length tr = 3 then Some (MySQLError 1062 ''dup'') else None)"
      and sqls = "[''INSERT INTO t VALUES (1)'', ''INSERT INTO t VALUES (2)'']"
      and e = "Traced (MySQLError 1062 ''dup'')"
      and wa = "snd (executeSQLImp (env_of (\<lambda>tr. if length tr = 3 then Some (MySQLError 1062 ''dup'') else None))
          [''INSERT INTO t VALUES (1)'', ''INSERT INTO t VALUES (2)''] world0)"
      and q = "''SELECT 1''" and v = world0 and qe = "NetError False" and va = world0]
    fatal_short_circuit [where i = 0 and maxRetry = 3 and err = None and w = world0
      and env = "env_of (\<lambda>tr. if length tr = 1 then Some (NetError False) else None)"
      and sqls = "[]" and e = ErrBadConn and wa = world0
      and q = "''SELECT 1''" and v = world0 and qe = "NetError False"
      and va = "snd (db_QueryRowScan (env_of (\<lambda>tr. if length tr = 1 then Some (NetError False) else None))
          ''SELECT 1'' world0)"]
  by (auto simp: env_of_def world0_def executeSQLImp_def op_defs Let_def isRetryableError_def tidb_codes_def
      ExecWithRetry_pause_def QueryRowWithRetry_pause_def)

section \<open>Atomicity of a batch\<close>

lemma ExecWithRetry_committed:
  "ExecWithRetry env sqls w = (out, w') \<Longrightarrow>
   committed w' = (if out = Return None then committed w @ sqls else committed w)"
  by (cases "sqls = []") (auto simp: ExecWithRetry_def dest: loop_committed)

text \<open>
  C1. Atomicity. If in an attempt the transaction begins, the statements before the
  statement of index \<open>k\<close> succeed and that statement fails, then the attempt issues a
  rollback right after the failing statement and nothing else, returns the statement's
  error traced, leaves no transaction open and leaves the visible statements as they
  were. Whatever the driver does, the visible statements after an attempt, and after a
  whole call of \<^verbatim>\<open>ExecWithRetry\<close>, are the old ones, followed by the whole batch exactly when
  the result is \<^verbatim>\<open>nil\<close>; and an attempt returns \<^verbatim>\<open>nil\<close> only if the begin, every statement and
  the commit succeeded.
\<close>

theorem batch_atomicity:
  "(k < length sqls \<and> fails env (trace w @ [OpBeginTx]) = None
      \<and> (\<forall>j<k. fails env (trace w @ OpBeginTx # map OpExec (take (Suc j) sqls)) = None)
      \<and> fails env (trace w @ OpBeginTx # map OpExec (take (Suc k) sqls)) = Some e
    \<longrightarrow> (\<exists>w'. executeSQLImp env sqls w = (Some (Traced e), w')
          \<and> trace w' = trace w @ OpBeginTx # map OpExec (take (Suc k) sqls) @ [OpRollback]
          \<and> pending w' = None \<and> committed w' = committed w))
   \<and> (executeSQLImp env sqls w = (r, wa)
    \<longrightarrow> committed wa = (if r = None then committed w @ sqls else committed w))
   \<and> (executeSQLImp env sqls w = (None, wc)
    \<longrightarrow> fails env (trace w @ [OpBeginTx]) = None
        \<and> (\<forall>j<length sqls. fails env (trace w @ OpBeginTx # map OpExec (take (Suc j) sqls)) = None)
        \<and> fails env (trace w @ OpBeginTx # map OpExec sqls @ [OpCommit]) = None)
   \<and> (ExecWithRetry env sqls w = (out, wb)
    \<longrightarrow> committed wb = (if out = Return None then committed w @ sqls else committed w))"
proof (intro conjI impI)
  assume h: "k < length sqls \<and> fails env (trace w @ [OpBeginTx]) = None
      \<and> (\<forall>j<k. fails env (trace w @ OpBeginTx # map OpExec (take (Suc j) sqls)) = None)
      \<and> fails env (trace w @ OpBeginTx # map OpExec (take (Suc k) sqls)) = Some e"
  then have "k < length sqls" "fails env (trace w @ [OpBeginTx]) = None"
    "\<forall>j<k. fails env (trace w @ OpBeginTx # map OpExec (take (Suc j) sqls)) = None"
    "fails env (trace w @ OpBeginTx # map OpExec (take (Suc k) sqls)) = Some e"
    by blast+
  from attempt_stmt_fail [OF this]
  show "\<exists>w'. executeSQLImp env sqls w = (Some (Traced e), w')
          \<and> trace w' = trace w @ OpBeginTx # map OpExec (take (Suc k) sqls) @ [OpRollback]
          \<and> pending w' = None \<and> committed w' = committed w"
    by blast
next
  assume "executeSQLImp env sqls w = (r, wa)"
  from executeSQLImp_effects [OF this]
  show "committed wa = (if r = None then committed w @ sqls else committed w)" by blast
next
  assume a: "executeSQLImp env sqls w = (None, wc)"
  from attempt_success_only_if [OF a]
  show "fails env (trace w @ [OpBeginTx]) = None"
    and "\<forall>j<length sqls. fails env (trace w @ OpBeginTx # map OpExec (take (Suc j) sqls)) = None"
    and "fails env (trace w @ OpBeginTx # map OpExec sqls @ [OpCommit]) = None"
    by blast+
next
  assume "ExecWithRetry env sqls w = (out, wb)"
  then show "committed wb = (if out = Return None then committed w @ sqls else committed w)"
    by (rule ExecWithRetry_committed)
qed

theorem batch_atomicity_witness:
  "(1::nat) < length [''INSERT INTO t VALUES (1)'', ''INSERT INTO t VALUES (2)'']
   \<and> fails (env_of (\<lambda>tr. if length tr = 3 then Some (MySQLError 1062 ''dup'') else None))
        (trace world0 @ [OpBeginTx]) = None
   \<and> fails (env_of (\<lambda>tr. if length tr = 3 then Some (MySQLError 1062 ''dup'') else None))
        (trace world0 @ OpBeginTx # map OpExec
           (take (Suc 0) [''INSERT INTO t VALUES (1)'', ''INSERT INTO t VALUES (2)''])) = None
   \<and> fails (env_of (\<lambda>tr. if length tr = 3 then Some (MySQLError 1062 ''dup'') else None))
        (trace world0 @ OpBeginTx # map OpExec
           (take (Suc 1) [''INSERT INTO t VALUES (1)'', ''INSERT INTO t VALUES (2)'']))
       = Some (MySQLError 1062 ''dup'')
   \<and> fst (executeSQLImp (env_of (\<lambda>tr. if length tr = 3 then Some (MySQLError 1062 ''dup'') else None))
        [''INSERT INTO t VALUES (1)'', ''INSERT INTO t VALUES (2)''] world0)
       = Some (Traced (MySQLError 1062 ''dup''))
   \<and> committed (snd (executeSQLImp (env_of (\<lambda>tr. if length tr = 3 then Some (MySQLError 1062 ''dup'') else None))
        [''INSERT INTO t VALUES (1)'', ''INSERT INTO t VALUES (2)''] world0)) = []
   \<and> committed (snd (ExecWithRetry (env_of (\<lambda>tr. if length tr = 3 then Some (MySQLError 1062 ''dup'') else None))
        [''INSERT INTO t VALUES (1)'', ''INSERT INTO t VALUES (2)''] world0)) = []
   \<and> executeSQLImp (env_of (\<lambda>tr. None)) [''INSERT INTO t VALUES (1)'', ''INSERT INTO t VALUES (2)''] world0
       = (None, snd (executeSQLImp (env_of (\<lambda>tr. None))
            [''INSERT INTO t VALUES (1)'', ''INSERT INTO t VALUES (2)''] world0))
   \<and> committed (snd (ExecWithRetry (env_of (\<lambda>tr. None))
        [''INSERT INTO t VALUES (1)'', ''INSERT INTO t VALUES (2)''] world0))
       = [''INSERT INTO t VALUES (1)'', ''INSERT INTO t VALUES (2)'']"
  using batch_atomicity [where k = 1 and w = world0
      and env = "env_of (\<lambda>tr. if length tr = 3 then Some (MySQLError 1062 ''dup'') else None)"
      and sqls = "[''INSERT INTO t VALUES (1)'', ''INSERT INTO t VALUES (2)'']"
      and e = "MySQLError 1062 ''dup''"
      and r = "Some (Traced (MySQLError 1062 ''dup''))"
      and wa = "snd (executeSQLImp (env_of (\<lambda>tr. if length tr = 3 then Some (MySQLError 1062 ''dup'') else None))
          [''INSERT INTO t VALUES (1)'', ''INSERT INTO t VALUES (2)''] world0)"
      and wc = world0
      and out = "Return (Some (Traced (Traced (MySQLError 1062 ''dup''))))"
      and wb = "snd (ExecWithRetry (env_of (\<lambda>tr. if length tr = 3 then Some (MySQLError 1062 ''dup'') else None))
          [''INSERT INTO t VALUES (1)'', ''INSERT INTO t VALUES (2)''] world0)"]
    batch_atomicity [where k = 0 and w = world0 and env = "env_of (\<lambda>tr. None)"
      and sqls = "[''INSERT INTO t VALUES (1)'', ''INSERT INTO t VALUES (2)'']"
      and e = ErrBadConn and r = None
      and wa = "snd (executeSQLImp (env_of (\<lambda>tr. None))
            [''INSERT INTO t VALUES (1)'', ''INSERT INTO t VALUES (2)''] world0)"
      and wc = "snd (executeSQLImp (env_of (\<lambda>tr. None))
            [''INSERT INTO t VALUES (1)'', ''INSERT INTO t VALUES (2)''] world0)"
      and out = "Return None"
      and wb = "snd (ExecWithRetry (env_of (\<lambda>tr. None))
            [''INSERT INTO t VALUES (1)'', ''INSERT INTO t VALUES (2)''] world0)"]
  by (simp add: eval_defs ExecWithRetry_loop.simps)

section \<open>Failures of rollback and of commit\<close>

text \<open>
  C5. When a statement fails and the rollback that follows fails too, the attempt still
  returns the statement's error (traced), the rollback's error appears only in the last
  line of the log, and \<^verbatim>\<open>ExecWithRetry\<close> decides between retrying and returning by the class
  of the statement's error.
\<close>

theorem rollback_failure_keeps_statement_error:
  assumes "k < length sqls"
    and "fails env (trace w @ [OpBeginTx]) = None"
    and "\<forall>j<k. fails env (trace w @ OpBeginTx # map OpExec (take (Suc j) sqls)) = None"
    and "fails env (trace w @ OpBeginTx # map OpExec (take (Suc k) sqls)) = Some e"
    and "fails env (trace w @ OpBeginTx # map OpExec (take (Suc k) sqls) @ [OpRollback]) = Some rerr"
  shows "\<exists>w'. executeSQLImp env sqls w = (Some (Traced e), w')
     \<and> carried (Traced e) = [e]
     \<and> trace w' = trace w @ OpBeginTx # map OpExec (take (Suc k) sqls) @ [OpRollback]
     \<and> logs w' = logs w @ debug_logs (take (Suc k) sqls)
          @ [Log Warn ''[exec][sql] %s [error]%v'' [AString (sqls ! k), AError e],
             Log Error ''[exec][sql] %s [error] %v'' [AString (sqls ! k), AError rerr]]
     \<and> ExecWithRetry env sqls w =
         (if isRetryableError (codes env) e
          then ExecWithRetry_loop env sqls defaultMaxRetry 1 (Some (Traced e)) w'
          else (Return (Some (Traced (Traced e))),
                AppLogger_Errorf ''[exec][sql] %s [error] %v'' [AStrings sqls, AError (Traced e)] w'))"
proof -
  from attempt_stmt_fail [OF assms(1-4)] obtain w' where
    a: "executeSQLImp env sqls w = (Some (Traced e), w')"
    and f: "trace w' = trace w @ OpBeginTx # map OpExec (take (Suc k) sqls) @ [OpRollback]"
      "logs w' = logs w @ debug_logs (take (Suc k) sqls)
          @ [Log Warn ''[exec][sql] %s [error]%v'' [AString (sqls ! k), AError e],
             Log Error ''[exec][sql] %s [error] %v'' [AString (sqls ! k), AError rerr]]"
    by (auto simp: assms(5))
  have ne: "sqls \<noteq> []" using assms(1) by auto
  have p0: "ExecWithRetry_pause sqls 0 w = w" by (simp add: ExecWithRetry_pause_def)
  have c: "isRetryableError (codes env) (Traced e) = isRetryableError (codes env) e"
    by (simp add: isRetryableError_def)
  have "ExecWithRetry env sqls w =
         (if isRetryableError (codes env) e
          then ExecWithRetry_loop env sqls defaultMaxRetry 1 (Some (Traced e)) w'
          else (Return (Some (Traced (Traced e))),
                AppLogger_Errorf ''[exec][sql] %s [error] %v'' [AStrings sqls, AError (Traced e)] w'))"
    using loop_retry [of 0 defaultMaxRetry env sqls w "Traced e" w' None]
      loop_fatal [of 0 defaultMaxRetry env sqls w "Traced e" w' None] a ne
    by (simp add: ExecWithRetry_def p0 c defaultMaxRetry_def)
  with a f show ?thesis by simp
qed

theorem rollback_failure_keeps_statement_error_witness:
  "(0::nat) < length [''UPDATE t SET a = 1'']
   \<and> fails (env_of (\<lambda>tr. if length tr = 2 then Some (MySQLError 1062 ''dup'')
                          else if length tr = 3 then Some ErrBadConn else None))
        (trace world0 @ [OpBeginTx]) = None
   \<and> fails (env_of (\<lambda>tr. if length tr = 2 then Some (MySQLError 1062 ''dup'')
                          else if length tr = 3 then Some ErrBadConn else None))
        (trace world0 @ OpBeginTx # map OpExec (take (Suc 0) [''UPDATE t SET a = 1'']))
       = Some (MySQLError 1062 ''dup'')
   \<and> fails (env_of (\<lambda>tr. if length tr = 2 then Some (MySQLError 1062 ''dup'')
                          else if length tr = 3 then Some ErrBadConn else None))
        (trace world0 @ OpBeginTx # map OpExec (take (Suc 0) [''UPDATE t SET a = 1'']) @ [OpRollback])
       = Some ErrBadConn
   \<and> fst (executeSQLImp (env_of (\<lambda>tr. if length tr = 2 then Some (MySQLError 1062 ''dup'')
                          else if length tr = 3 then Some ErrBadConn else None))
        [''UPDATE t SET a = 1''] world0) = Some (Traced (MySQLError 1062 ''dup''))
   \<and> fst (ExecWithRetry (env_of (\<lambda>tr. if length tr = 2 then Some (MySQLError 1062 ''dup'')
                          else if length tr = 3 then Some ErrBadConn else None))
        [''UPDATE t SET a = 1''] world0) = Return (Some (Traced (Traced (MySQLError 1062 ''dup''))))
   \<and> logs (snd (executeSQLImp (env_of (\<lambda>tr. if length tr = 2 then Some (MySQLError 1062 ''dup'')
                          else if length tr = 3 then Some ErrBadConn else None))
        [''UPDATE t SET a = 1''] world0))
       = [Log Debug ''[exec][sql] %s'' [AString ''UPDATE t SET a = 1''],
          Log Warn ''[exec][sql] %s [error]%v'' [AString ''UPDATE t SET a = 1'', AError (MySQLError 1062 ''dup'')],
          Log Error ''[exec][sql] %s [error] %v'' [AString ''UPDATE t SET a = 1'', AError ErrBadConn]]"
  using rollback_failure_keeps_statement_error [where k = 0 and w = world0
      and env = "env_of (\<lambda>tr. if length tr = 2 then Some (MySQLError 1062 ''dup'')
                          else if length tr = 3 then Some ErrBadConn else None)"
      and sqls = "[''UPDATE t SET a = 1'']"
      and e = "MySQLError 1062 ''dup''" and rerr = ErrBadConn]
  by (auto simp: eval_defs debug_logs_def)

text \<open>
  C8. When in the attempt of iteration \<open>i\<close> the begin and every statement succeed and the
  commit fails, the attempt returns the commit's error traced and makes nothing visible,
  and the loop treats it as any failed attempt: a retryable error leads to iteration
  \<open>i + 1\<close>, which sleeps and begins a new transaction for the whole batch if \<open>i + 1\<close> is
  below the bound and returns the exhaustion error otherwise; an error that is not
  retryable is returned at once, traced.
\<close>

theorem commit_failure_retried:
  assumes "0 \<le> i" and "i < maxRetry"
    and "fails env (trace (ExecWithRetry_pause sqls i w) @ [OpBeginTx]) = None"
    and "\<forall>j<length sqls. fails env (trace (ExecWithRetry_pause sqls i w)
            @ OpBeginTx # map OpExec (take (Suc j) sqls)) = None"
    and "fails env (trace (ExecWithRetry_pause sqls i w)
            @ OpBeginTx # map OpExec sqls @ [OpCommit]) = Some e"
  shows "\<exists>w'. executeSQLImp env sqls (ExecWithRetry_pause sqls i w) = (Some (Traced e), w')
     \<and> trace w' = trace (ExecWithRetry_pause sqls i w) @ OpBeginTx # map OpExec sqls @ [OpCommit]
     \<and> committed w' = committed w \<and> pending w' = None
     \<and> ExecWithRetry_loop env sqls maxRetry i err w =
         (if isRetryableError (codes env) e
          then ExecWithRetry_loop env sqls maxRetry (i + 1) (Some (Traced e)) w'
          else (Return (Some (Traced (Traced e))),
                AppLogger_Errorf ''[exec][sql] %s [error] %v'' [AStrings sqls, AError (Traced e)] w'))
     \<and> (isRetryableError (codes env) e \<and> i + 1 < maxRetry \<longrightarrow>
          (\<exists>rest. trace (snd (ExecWithRetry_loop env sqls maxRetry i err w))
             = trace w' @ OpSleep retryTimeout # OpBeginTx # rest))
     \<and> (isRetryableError (codes env) e \<and> \<not> i + 1 < maxRetry \<longrightarrow>
          ExecWithRetry_loop env sqls maxRetry i err w =
            (Return (Some (Errorf ''exec sqls [%v] failed, err:%s''
                             [AStrings sqls, AErrorText (Traced e)])), w'))"
proof -
  from attempt_commit [OF assms(3,4)] obtain w' where
    a: "executeSQLImp env sqls (ExecWithRetry_pause sqls i w) = (Some (Traced e), w')"
    and f0: "trace w' = trace (ExecWithRetry_pause sqls i w) @ OpBeginTx # map OpExec sqls @ [OpCommit]"
      "committed w' = committed (ExecWithRetry_pause sqls i w)" "pending w' = None"
    unfolding assms(5) by auto
  have f: "trace w' = trace (ExecWithRetry_pause sqls i w) @ OpBeginTx # map OpExec sqls @ [OpCommit]"
      "committed w' = committed w" "pending w' = None"
    using f0 by (simp_all add: pause_fields(3))
  have c: "isRetryableError (codes env) (Traced e) = isRetryableError (codes env) e"
    by (simp add: isRetryableError_def)
  have step: "ExecWithRetry_loop env sqls maxRetry i err w =
         (if isRetryableError (codes env) e
          then ExecWithRetry_loop env sqls maxRetry (i + 1) (Some (Traced e)) w'
          else (Return (Some (Traced (Traced e))),
                AppLogger_Errorf ''[exec][sql] %s [error] %v'' [AStrings sqls, AError (Traced e)] w'))"
    using loop_retry [OF assms(2) a, of err] loop_fatal [OF assms(2) a, of err]
    by (simp add: c)
  have nxt: "isRetryableError (codes env) e \<and> i + 1 < maxRetry \<longrightarrow>
          (\<exists>rest. trace (snd (ExecWithRetry_loop env sqls maxRetry i err w))
             = trace w' @ OpSleep retryTimeout # OpBeginTx # rest)"
  proof
    assume h: "isRetryableError (codes env) e \<and> i + 1 < maxRetry"
    from loop_next_attempt [of "i + 1" maxRetry env sqls "Some (Traced e)" w'] h
    obtain rest where "trace (snd (ExecWithRetry_loop env sqls maxRetry (i + 1) (Some (Traced e)) w'))
           = trace (ExecWithRetry_pause sqls (i + 1) w') @ OpBeginTx # rest"
      by blast
    moreover have "0 < i + 1" using assms(1) by simp
    ultimately show "\<exists>rest. trace (snd (ExecWithRetry_loop env sqls maxRetry i err w))
             = trace w' @ OpSleep retryTimeout # OpBeginTx # rest"
      using step h by (simp add: pause_fields)
  qed
  have ex: "isRetryableError (codes env) e \<and> \<not> i + 1 < maxRetry \<longrightarrow>
          ExecWithRetry_loop env sqls maxRetry i err w =
            (Return (Some (Errorf ''exec sqls [%v] failed, err:%s''
                             [AStrings sqls, AErrorText (Traced e)])), w')"
    using step by (simp add: loop_exit)
  from a f step nxt ex show ?thesis by blast
qed

theorem commit_failure_retried_witness:
  "fails (env_of (\<lambda>tr. if last tr = OpCommit then Some ErrBadConn else None))
      (trace (ExecWithRetry_pause [''DELETE FROM t''] 0 world0) @ OpBeginTx # map OpExec [''DELETE FROM t''] @ [OpCommit])
     = Some ErrBadConn
   \<and> fails (env_of (\<lambda>tr. if last tr = OpCommit then Some ErrBadConn else None))
          (trace (ExecWithRetry_pause [''DELETE FROM t''] 0 world0)
             @ OpBeginTx # map OpExec (take (Suc 0) [''DELETE FROM t''])) = None
   \<and> isRetryableError tidb_codes ErrBadConn
   \<and> ExecWithRetry_loop (env_of (\<lambda>tr. if last tr = OpCommit then Some ErrBadConn else None))
        [''DELETE FROM t''] 3 0 None world0
      = ExecWithRetry_loop (env_of (\<lambda>tr. if last tr = OpCommit then Some ErrBadConn else None))
        [''DELETE FROM t''] 3 1 (Some (Traced ErrBadConn))
        (snd (executeSQLImp (env_of (\<lambda>tr. if last tr = OpCommit then Some ErrBadConn else None))
           [''DELETE FROM t''] world0))
   \<and> trace (snd (ExecWithRetry_loop (env_of (\<lambda>tr. if last tr = OpCommit then Some ErrBadConn else None))
        [''DELETE FROM t''] 3 0 None world0))
      = [OpBeginTx, OpExec ''DELETE FROM t'', OpCommit, OpSleep retryTimeout,
         OpBeginTx, OpExec ''DELETE FROM t'', OpCommit, OpSleep retryTimeout,
         OpBeginTx, OpExec ''DELETE FROM t'', OpCommit]
   \<and> fst (ExecWithRetry_loop (env_of (\<lambda>tr. if last tr = OpCommit then Some ErrBadConn else None))
        [''DELETE FROM t''] 3 2 (Some (Traced ErrBadConn)) world0)
      = Return (Some (Errorf ''exec sqls [%v] failed, err:%s''
                        [AStrings [''DELETE FROM t''], AErrorText (Traced ErrBadConn)]))
   \<and> \<not> isRetryableError tidb_codes (MySQLError 1062 ''dup'')
   \<and> fst (ExecWithRetry_loop (env_of (\<lambda>tr. if last tr = OpCommit then Some (MySQLError 1062 ''dup'') else None))
        [''DELETE FROM t''] 3 0 None world0)
      = Return (Some (Traced (Traced (MySQLError 1062 ''dup''))))
   \<and> trace (snd (ExecWithRetry_loop (env_of (\<lambda>tr. if last tr = OpCommit then Some (MySQLError 1062 ''dup'') else None))
        [''DELETE FROM t''] 3 0 None world0))
      = [OpBeginTx, OpExec ''DELETE FROM t'', OpCommit]"
  using commit_failure_retried [where i = 0 and maxRetry = 3 and err = None and w = world0
      and env = "env_of (\<lambda>tr. if last tr = OpCommit then Some ErrBadConn else None)"
      and sqls = "[''DELETE FROM t'']" and e = ErrBadConn]
    commit_failure_retried [where i = 2 and maxRetry = 3 and err = "Some (Traced ErrBadConn)" and w = world0
      and env = "env_of (\<lambda>tr. if last tr = OpCommit then Some ErrBadConn else None)"
      and sqls = "[''DELETE FROM t'']" and e = ErrBadConn]
    commit_failure_retried [where i = 0 and maxRetry = 3 and err = None and w = world0
      and env = "env_of (\<lambda>tr. if last tr = OpCommit then Some (MySQLError 1062 ''dup'') else None)"
      and sqls = "[''DELETE FROM t'']" and e = "MySQLError 1062 ''dup''"]
  by (simp add: eval_defs ExecWithRetry_loop.simps)

section \<open>Exhaustion\<close>

text \<open>
  C3. Transient bound, with the policy of the file (three attempts, three seconds). When
  the three attempts of \<^verbatim>\<open>ExecWithRetry\<close> each fail with a retryable error, the call returns
  the exhaustion error in the state the third attempt left: the history has grown by
  exactly three attempts (each beginning one transaction) with one sleep of three seconds
  between two consecutive ones, and nothing follows the third. When the three queries of
  \<^verbatim>\<open>QueryRowWithRetry\<close> each fail with a retryable error, the history has grown by exactly
  three queries with one sleep of three seconds between two consecutive ones.
\<close>

theorem transient_bound:
  "(sqls \<noteq> []
      \<and> executeSQLImp env sqls w = (Some ea, wa) \<and> isRetryableError (codes env) ea
      \<and> executeSQLImp env sqls (ExecWithRetry_pause sqls 1 wa) = (Some eb, wb)
      \<and> isRetryableError (codes env) eb
      \<and> executeSQLImp env sqls (ExecWithRetry_pause sqls 2 wb) = (Some ec, wc)
      \<and> isRetryableError (codes env) ec
    \<longrightarrow> ExecWithRetry env sqls w =
          (Return (Some (Errorf ''exec sqls [%v] failed, err:%s'' [AStrings sqls, AErrorText ec])), wc)
        \<and> (\<exists>a1 a2 a3.
              trace wc = trace w @ OpBeginTx # a1 @ OpSleep retryTimeout # OpBeginTx # a2
                           @ OpSleep retryTimeout # OpBeginTx # a3
              \<and> begins (a1 @ a2 @ a3) = 0 \<and> sleeps (a1 @ a2 @ a3) = [])
        \<and> begins (trace wc) = begins (trace w) + 3
        \<and> sleeps (trace wc) = sleeps (trace w) @ [3000000000, 3000000000])
   \<and> (fails env (trace v @ [OpQueryRow q]) = Some qa \<and> isRetryableError (codes env) qa
      \<and> fails env (trace v @ [OpQueryRow q, OpSleep retryTimeout, OpQueryRow q]) = Some qb
      \<and> isRetryableError (codes env) qb
      \<and> fails env (trace v @ [OpQueryRow q, OpSleep retryTimeout, OpQueryRow q,
                                OpSleep retryTimeout, OpQueryRow q]) = Some qc
      \<and> isRetryableError (codes env) qc
    \<longrightarrow> (\<exists>v'. QueryRowWithRetry env q v = (Some (Errorf ''query sql [%s] failed'' [AString q]), v')
          \<and> trace v' = trace v @ [OpQueryRow q, OpSleep 3000000000, OpQueryRow q,
                                   OpSleep 3000000000, OpQueryRow q]))
   \<and> defaultMaxRetry = 3 \<and> retryTimeout = 3 * time_Second \<and> time_Second = 1000000000"
proof (intro conjI impI)
  assume h: "sqls \<noteq> []
      \<and> executeSQLImp env sqls w = (Some ea, wa) \<and> isRetryableError (codes env) ea
      \<and> executeSQLImp env sqls (ExecWithRetry_pause sqls 1 wa) = (Some eb, wb)
      \<and> isRetryableError (codes env) eb
      \<and> executeSQLImp env sqls (ExecWithRetry_pause sqls 2 wb) = (Some ec, wc)
      \<and> isRetryableError (codes env) ec"
  then have hs: "sqls \<noteq> []"
    "executeSQLImp env sqls w = (Some ea, wa)" "isRetryableError (codes env) ea"
    "executeSQLImp env sqls (ExecWithRetry_pause sqls 1 wa) = (Some eb, wb)"
    "isRetryableError (codes env) eb"
    "executeSQLImp env sqls (ExecWithRetry_pause sqls 2 wb) = (Some ec, wc)"
    "isRetryableError (codes env) ec"
    by blast+
  from ExecWithRetry_exhausted [OF hs]
  show "ExecWithRetry env sqls w =
          (Return (Some (Errorf ''exec sqls [%v] failed, err:%s'' [AStrings sqls, AErrorText ec])), wc)" .
  from ExecWithRetry_exhausted_trace [OF hs(2,4,6)] obtain a1 a2 a3 where
    t: "trace wc = trace w @ OpBeginTx # a1 @ OpSleep retryTimeout # OpBeginTx # a2
                           @ OpSleep retryTimeout # OpBeginTx # a3"
    and z: "begins (a1 @ a2 @ a3) = 0" "sleeps (a1 @ a2 @ a3) = []"
    by blast
  from t z show "\<exists>a1 a2 a3.
              trace wc = trace w @ OpBeginTx # a1 @ OpSleep retryTimeout # OpBeginTx # a2
                           @ OpSleep retryTimeout # OpBeginTx # a3
              \<and> begins (a1 @ a2 @ a3) = 0 \<and> sleeps (a1 @ a2 @ a3) = []"
    by blast
  from z have "begins a1 = 0" "begins a2 = 0" "begins a3 = 0"
    "sleeps a1 = []" "sleeps a2 = []" "sleeps a3 = []"
    by (simp_all add: begins_simps sleeps_simps)
  then show "begins (trace wc) = begins (trace w) + 3"
    and "sleeps (trace wc) = sleeps (trace w) @ [3000000000, 3000000000]"
    unfolding t by (simp_all add: begins_simps sleeps_simps retryTimeout_def time_Second_def)
next
  assume h: "fails env (trace v @ [OpQueryRow q]) = Some qa \<and> isRetryableError (codes env) qa
      \<and> fails env (trace v @ [OpQueryRow q, OpSleep retryTimeout, OpQueryRow q]) = Some qb
      \<and> isRetryableError (codes env) qb
      \<and> fails env (trace v @ [OpQueryRow q, OpSleep retryTimeout, OpQueryRow q,
                                OpSleep retryTimeout, OpQueryRow q]) = Some qc
      \<and> isRetryableError (codes env) qc"
  then have hs: "fails env (trace v @ [OpQueryRow q]) = Some qa" "isRetryableError (codes env) qa"
      "fails env (trace v @ [OpQueryRow q, OpSleep retryTimeout, OpQueryRow q]) = Some qb"
      "isRetryableError (codes env) qb"
      "fails env (trace v @ [OpQueryRow q, OpSleep retryTimeout, OpQueryRow q,
                                OpSleep retryTimeout, OpQueryRow q]) = Some qc"
      "isRetryableError (codes env) qc"
    by blast+
  from QueryRowWithRetry_exhausted [OF hs]
  show "\<exists>v'. QueryRowWithRetry env q v = (Some (Errorf ''query sql [%s] failed'' [AString q]), v')
          \<and> trace v' = trace v @ [OpQueryRow q, OpSleep 3000000000, OpQueryRow q,
                                   OpSleep 3000000000, OpQueryRow q]"
    by (auto simp: retryTimeout_def time_Second_def)
qed (simp_all add: defaultMaxRetry_def retryTimeout_def time_Second_def)

theorem transient_bound_witness:
  "batch_two \<noteq> []
   \<and> executeSQLImp always_transient batch_two world0
       = (Some (Traced ErrBadConn), snd (executeSQLImp always_transient batch_two world0))
   \<and> isRetryableError (codes always_transient) (Traced ErrBadConn)
   \<and> fst (executeSQLImp always_transient batch_two
        (ExecWithRetry_pause batch_two 1 (snd (executeSQLImp always_transient batch_two world0))))
       = Some (Traced (NetError True))
   \<and> isRetryableError (codes always_transient) (Traced (NetError True))
   \<and> fst (executeSQLImp always_transient batch_two
        (ExecWithRetry_pause batch_two 2 (snd (executeSQLImp always_transient batch_two
          (ExecWithRetry_pause batch_two 1 (snd (executeSQLImp always_transient batch_two world0)))))))
       = Some (Traced (MySQLError 1213 ''deadlock''))
   \<and> isRetryableError (codes always_transient) (Traced (MySQLError 1213 ''deadlock''))
   \<and> fst (ExecWithRetry always_transient batch_two world0)
       = Return (Some (Errorf ''exec sqls [%v] failed, err:%s''
           [AStrings batch_two, AErrorText (Traced (MySQLError 1213 ''deadlock''))]))
   \<and> trace (snd (ExecWithRetry always_transient batch_two world0))
       = [OpBeginTx, OpSleep 3000000000, OpBeginTx, OpSleep 3000000000, OpBeginTx]
   \<and> begins (trace (snd (ExecWithRetry always_transient batch_two world0))) = 3
   \<and> sleeps (trace (snd (ExecWithRetry always_transient batch_two world0))) = [3000000000, 3000000000]
   \<and> fails always_transient (trace world0 @ [OpQueryRow ''SELECT 1'']) = Some (NetError True)
   \<and> fst (QueryRowWithRetry always_transient ''SELECT 1'' world0)
       = Some (Errorf ''query sql [%s] failed'' [AString ''SELECT 1''])
   \<and> trace (snd (QueryRowWithRetry always_transient ''SELECT 1'' world0))
       = [OpQueryRow ''SELECT 1'', OpSleep 3000000000, OpQueryRow ''SELECT 1'',
          OpSleep 3000000000, OpQueryRow ''SELECT 1'']"
  using transient_bound [where env = always_transient and sqls = batch_two and w = world0
      and ea = "Traced ErrBadConn" and eb = "Traced (NetError True)"
      and ec = "Traced (MySQLError 1213 ''deadlock'')"
      and wa = "snd (executeSQLImp always_transient batch_two world0)"
      and wb = "snd (executeSQLImp always_transient batch_two
        (ExecWithRetry_pause batch_two 1 (snd (executeSQLImp always_transient batch_two world0))))"
      and wc = "snd (executeSQLImp always_transient batch_two
        (ExecWithRetry_pause batch_two 2 (snd (executeSQLImp always_transient batch_two
          (ExecWithRetry_pause batch_two 1 (snd (executeSQLImp always_transient batch_two world0)))))))"
      and v = world0 and q = "''SELECT 1''"
      and qa = "NetError True" and qb = "NetError True" and qc = "NetError True"]
  by (auto simp: eval_defs always_transient_def batch_two_def retryTimeout_def time_Second_def
      begins_def sleeps_def)

text \<open>
  C7. On exhaustion \<^verbatim>\<open>ExecWithRetry\<close> returns an error made of the batch and of the text of
  the last attempt's error, while \<^verbatim>\<open>QueryRowWithRetry\<close> returns an error made of the query
  alone, which carries no error of any attempt.
\<close>

theorem exhaustion_errors:
  "(sqls \<noteq> []
      \<and> executeSQLImp env sqls w = (Some ea, wa) \<and> isRetryableError (codes env) ea
      \<and> executeSQLImp env sqls (ExecWithRetry_pause sqls 1 wa) = (Some eb, wb)
      \<and> isRetryableError (codes env) eb
      \<and> executeSQLImp env sqls (ExecWithRetry_pause sqls 2 wb) = (Some ec, wc)
      \<and> isRetryableError (codes env) ec
    \<longrightarrow> fst (ExecWithRetry env sqls w) =
          Return (Some (Errorf ''exec sqls [%v] failed, err:%s'' [AStrings sqls, AErrorText ec]))
        \<and> carried (Errorf ''exec sqls [%v] failed, err:%s'' [AStrings sqls, AErrorText ec]) = [ec])
   \<and> (fails env (trace v @ [OpQueryRow q]) = Some qa \<and> isRetryableError (codes env) qa
      \<and> fails env (trace v @ [OpQueryRow q, OpSleep retryTimeout, OpQueryRow q]) = Some qb
      \<and> isRetryableError (codes env) qb
      \<and> fails env (trace v @ [OpQueryRow q, OpSleep retryTimeout, OpQueryRow q,
                                OpSleep retryTimeout, OpQueryRow q]) = Some qc
      \<and> isRetryableError (codes env) qc
    \<longrightarrow> fst (QueryRowWithRetry env q v) = Some (Errorf ''query sql [%s] failed'' [AString q])
        \<and> carried (Errorf ''query sql [%s] failed'' [AString q]) = [])"
proof (intro conjI impI)
  assume h: "sqls \<noteq> []
      \<and> executeSQLImp env sqls w = (Some ea, wa) \<and> isRetryableError (codes env) ea
      \<and> executeSQLImp env sqls (ExecWithRetry_pause sqls 1 wa) = (Some eb, wb)
      \<and> isRetryableError (codes env) eb
      \<and> executeSQLImp env sqls (ExecWithRetry_pause sqls 2 wb) = (Some ec, wc)
      \<and> isRetryableError (codes env) ec"
  then have hs: "sqls \<noteq> []"
    "executeSQLImp env sqls w = (Some ea, wa)" "isRetryableError (codes env) ea"
    "executeSQLImp env sqls (ExecWithRetry_pause sqls 1 wa) = (Some eb, wb)"
    "isRetryableError (codes env) eb"
    "executeSQLImp env sqls (ExecWithRetry_pause sqls 2 wb) = (Some ec, wc)"
    "isRetryableError (codes env) ec"
    by blast+
  from ExecWithRetry_exhausted [OF hs]
  show "fst (ExecWithRetry env sqls w) =
          Return (Some (Errorf ''exec sqls [%v] failed, err:%s'' [AStrings sqls, AErrorText ec]))"
    by simp
next
  assume h: "fails env (trace v @ [OpQueryRow q]) = Some qa \<and> isRetryableError (codes env) qa
      \<and> fails env (trace v @ [OpQueryRow q, OpSleep retryTimeout, OpQueryRow q]) = Some qb
      \<and> isRetryableError (codes env) qb
      \<and> fails env (trace v @ [OpQueryRow q, OpSleep retryTimeout, OpQueryRow q,
                                OpSleep retryTimeout, OpQueryRow q]) = Some qc
      \<and> isRetryableError (codes env) qc"
  then have hs: "fails env (trace v @ [OpQueryRow q]) = Some qa" "isRetryableError (codes env) qa"
      "fails env (trace v @ [OpQueryRow q, OpSleep retryTimeout, OpQueryRow q]) = Some qb"
      "isRetryableError (codes env) qb"
      "fails env (trace v @ [OpQueryRow q, OpSleep retryTimeout, OpQueryRow q,
                                OpSleep retryTimeout, OpQueryRow q]) = Some qc"
      "isRetryableError (codes env) qc"
    by blast+
  from QueryRowWithRetry_exhausted [OF hs]
  show "fst (QueryRowWithRetry env q v) = Some (Errorf ''query sql [%s] failed'' [AString q])"
    by auto
qed simp_all

theorem exhaustion_errors_witness:
  "batch_two \<noteq> []
   \<and> fst (executeSQLImp always_transient batch_two world0) = Some (Traced ErrBadConn)
   \<and> isRetryableError (codes always_transient) (Traced ErrBadConn)
   \<and> fst (executeSQLImp always_transient batch_two
        (ExecWithRetry_pause batch_two 1 (snd (executeSQLImp always_transient batch_two world0))))
       = Some (Traced (NetError True))
   \<and> isRetryableError (codes always_transient) (Traced (NetError True))
   \<and> fst (executeSQLImp always_transient batch_two
        (ExecWithRetry_pause batch_two 2 (snd (executeSQLImp always_transient batch_two
          (ExecWithRetry_pause batch_two 1 (snd (executeSQLImp always_transient batch_two world0)))))))
       = Some (Traced (MySQLError 1213 ''deadlock''))
   \<and> isRetryableError (codes always_transient) (Traced (MySQLError 1213 ''deadlock''))
   \<and> fst (ExecWithRetry always_transient batch_two world0)
       = Return (Some (Errorf ''exec sqls [%v] failed, err:%s''
           [AStrings batch_two, AErrorText (Traced (MySQLError 1213 ''deadlock''))]))
   \<and> carried (Errorf ''exec sqls [%v] failed, err:%s''
           [AStrings batch_two, AErrorText (Traced (MySQLError 1213 ''deadlock''))])
       = [Traced (MySQLError 1213 ''deadlock'')]
   \<and> fails always_transient [OpQueryRow ''SELECT 1'', OpSleep retryTimeout, OpQueryRow ''SELECT 1'',
         OpSleep retryTimeout, OpQueryRow ''SELECT 1''] = Some (NetError True)
   \<and> isRetryableError (codes always_transient) (NetError True)
   \<and> fst (QueryRowWithRetry always_transient ''SELECT 1'' world0)
       = Some (Errorf ''query sql [%s] failed'' [AString ''SELECT 1''])
   \<and> carried (Errorf ''query sql [%s] failed'' [AString ''SELECT 1'']) = []"
  using exhaustion_errors [where env = always_transient and sqls = batch_two and w = world0
      and ea = "Traced ErrBadConn" and eb = "Traced (NetError True)"
      and ec = "Traced (MySQLError 1213 ''deadlock'')"
      and wa = "snd (executeSQLImp always_transient batch_two world0)"
      and wb = "snd (executeSQLImp always_transient batch_two
        (ExecWithRetry_pause batch_two 1 (snd (executeSQLImp always_transient batch_two world0))))"
      and wc = "snd (executeSQLImp always_transient batch_two
        (ExecWithRetry_pause batch_two 2 (snd (executeSQLImp always_transient batch_two
          (ExecWithRetry_pause batch_two 1 (snd (executeSQLImp always_transient batch_two world0)))))))"
      and v = world0 and q = "''SELECT 1''"
      and qa = "NetError True" and qb = "NetError True" and qc = "NetError True"]
  by (auto simp: eval_defs always_transient_def batch_two_def)

end
